theory Spec2Isabelle
  imports Complex_Main
begin

section \<open>JavaScript values\<close>

text \<open>
  The values that travel through the form: \<open>undefined\<close>, \<open>null\<close>, booleans, numbers and
  strings. A number is the real it denotes, or one of \<open>NaN\<close>, \<open>Infinity\<close>, \<open>-Infinity\<close>;
  every finite double is such a real, and comparing two doubles is comparing these reals.
\<close>

datatype jsnum = NaN | PosInf | NegInf | Fin real

datatype jsvalue = JUndefined | JNull | JBool bool | JNum jsnum | JStr string

text \<open>\<open>!!v\<close>: the falsy values are \<open>undefined\<close>, \<open>null\<close>, \<open>false\<close>, \<open>0\<close>, \<open>NaN\<close> and \<open>''\<close>.\<close>

fun truthy :: "jsvalue \<Rightarrow> bool" where
  "truthy JUndefined = False"
| "truthy JNull = False"
| "truthy (JBool b) = b"
| "truthy (JNum NaN) = False"
| "truthy (JNum PosInf) = True"
| "truthy (JNum NegInf) = True"
| "truthy (JNum (Fin r)) = (r \<noteq> 0)"
| "truthy (JStr s) = (s \<noteq> [])"

text \<open>lodash \<open>isNumber\<close>: \<open>typeof value == 'number'\<close>.\<close>

fun isNumber :: "jsvalue \<Rightarrow> bool" where
  "isNumber (JNum n) = True"
| "isNumber v = False"

subsection \<open>Numbers to strings\<close>

definition digit_char :: "nat \<Rightarrow> char" where
  "digit_char d = ''0123456789'' ! (d mod 10)"

function decimal :: "nat \<Rightarrow> string" where
  "decimal n = (if n < 10 then [digit_char n] else decimal (n div 10) @ [digit_char (n mod 10)])"
  by pat_completeness auto
termination
  by (relation "measure (\<lambda>n. n)") auto

declare decimal.simps [simp del]

text \<open>
  An integer of magnitude below \<open>2^53\<close> is a double, and its string is its decimal digits.
\<close>

definition safe_integer :: "real \<Rightarrow> bool" where
  "safe_integer r = (r = of_int \<lfloor>r\<rfloor> \<and> \<bar>r\<bar> < 2 ^ 53)"

text \<open>
  \<open>`${n}`\<close> on a number, \<open>Number::toString\<close>. The digits of a number that is not a safe
  integer come from the shortest round-trip digit generation of the doubles, which is
  taken as the parameter \<open>shortest\<close>.
\<close>

fun number_to_string :: "(real \<Rightarrow> string) \<Rightarrow> jsnum \<Rightarrow> string" where
  "number_to_string shortest NaN = ''NaN''"
| "number_to_string shortest PosInf = ''Infinity''"
| "number_to_string shortest NegInf = ''-Infinity''"
| "number_to_string shortest (Fin r) =
     (if safe_integer r
      then (if r < 0 then ''-'' @ decimal (nat (- \<lfloor>r\<rfloor>)) else decimal (nat \<lfloor>r\<rfloor>))
      else shortest r)"

subsection \<open>Strings and other values to numbers\<close>

definition is_digit :: "char \<Rightarrow> bool" where
  "is_digit c = (c \<in> set ''0123456789'')"

definition digit_val :: "char \<Rightarrow> nat" where
  "digit_val c = of_char c - 48"

definition digits_val :: "string \<Rightarrow> nat" where
  "digits_val s = foldl (\<lambda>n c. 10 * n + digit_val c) 0 s"

text \<open>
  \<open>StringToNumber\<close>: a string of decimal digits whose value is below \<open>2^53\<close> is that
  integer. Every other string (blanks, a sign, a fraction, an exponent, a radix prefix,
  text that is no number, digits that must be rounded) is left to the parameter
  \<open>parse\<close>.
\<close>

definition string_to_number :: "(string \<Rightarrow> jsnum) \<Rightarrow> string \<Rightarrow> jsnum" where
  "string_to_number parse s =
     (if s \<noteq> [] \<and> list_all is_digit s \<and> digits_val s < 2 ^ 53
      then Fin (real (digits_val s)) else parse s)"

text \<open>The unary plus \<open>+v\<close>.\<close>

fun to_number :: "(string \<Rightarrow> jsnum) \<Rightarrow> jsvalue \<Rightarrow> jsnum" where
  "to_number parse JUndefined = NaN"
| "to_number parse JNull = Fin 0"
| "to_number parse (JBool b) = (if b then Fin 1 else Fin 0)"
| "to_number parse (JNum n) = n"
| "to_number parse (JStr s) = string_to_number parse s"

text \<open>\<open>a > b\<close> and \<open>a < b\<close> on numbers; a comparison with \<open>NaN\<close> is false.\<close>

fun num_less :: "jsnum \<Rightarrow> jsnum \<Rightarrow> bool" where
  "num_less NaN b = False"
| "num_less a NaN = False"
| "num_less PosInf b = False"
| "num_less a NegInf = False"
| "num_less NegInf b = True"
| "num_less a PosInf = True"
| "num_less (Fin x) (Fin y) = (x < y)"

section \<open>The form's field graph\<close>

datatype display = Visible | Hidden | DNone

text \<open>
  A field object of the form engine: its display state, its value, and whether it is a
  void field (\<open>isField\<close> is false on a void field and on \<open>undefined\<close>).
\<close>

record field =
  display :: display
  fvalue :: jsvalue
  is_void :: bool

datatype seg = Key string | Idx nat

type_synonym address = "seg list"

text \<open>\<open>form.fields\<close>: the field at an address, if there is one.\<close>

type_synonym graph = "address \<Rightarrow> field option"

definition isField :: "field option \<Rightarrow> bool" where
  "isField fo = (case fo of None \<Rightarrow> False | Some f \<Rightarrow> \<not> is_void f)"

text \<open>
  Modelled from the spec: the form engine's setters \<open>setDisplay\<close> and \<open>setValue\<close> are not
  in these sources. \<open>f?.setDisplay(d)\<close> writes the display state of the field \<open>f\<close> found at
  an address, and does nothing when the query found no field; \<open>setValue\<close> writes its
  value.
\<close>

definition setDisplay :: "address \<Rightarrow> display \<Rightarrow> graph \<Rightarrow> graph" where
  "setDisplay a d g = (case g a of None \<Rightarrow> g | Some f \<Rightarrow> g(a \<mapsto> f\<lparr>display := d\<rparr>))"

text \<open>\<open>isField(f) && f?.setValue(v)\<close>.\<close>

definition setValue_if_field :: "address \<Rightarrow> jsvalue \<Rightarrow> graph \<Rightarrow> graph" where
  "setValue_if_field a v g =
     (case g a of
        None \<Rightarrow> g
      | Some f \<Rightarrow> if isField (Some f) then g(a \<mapsto> f\<lparr>fvalue := v\<rparr>) else g)"

subsection \<open>The reaction on \<open>triggers.*.type\<close>\<close>

text \<open>
  \<open>onFieldReact('triggers.*.type', ...)\<close>: \<open>address\<close> and \<open>fld\<close> are the address and the
  state of the type field the engine hands to the reaction.
\<close>

definition type_react :: "address \<Rightarrow> field \<Rightarrow> graph \<Rightarrow> graph" where
  "type_react address fld g =
     (if isField (Some fld) then
        (let value = fvalue fld;
             metadataPath = butlast address @ [Key ''metadata'', Key ''layout'', Key ''grid''];
             valueField = metadataPath @ [Key ''value''];
             startField = metadataPath @ [Key ''start''];
             endField = metadataPath @ [Key ''end''];
             desiredReplicasField = metadataPath @ [Key ''desiredReplicas''];
             subTypePathField = metadataPath @ [Key ''type''];
             timezoneField = metadataPath @ [Key ''timezone'']
         in if \<not> truthy value then
              (setDisplay desiredReplicasField DNone
                (setDisplay endField DNone
                  (setDisplay startField DNone
                    (setDisplay valueField DNone g))))
            else if value \<noteq> JStr ''cron'' then
              (setDisplay timezoneField DNone
                (setValue_if_field subTypePathField (JStr ''Utilization'')
                  (setDisplay subTypePathField Hidden
                    (setDisplay desiredReplicasField DNone
                      (setDisplay endField DNone
                        (setDisplay startField DNone
                          (setDisplay valueField Visible g)))))))
            else
              (setValue_if_field timezoneField (JStr ''Asia/Shanghai'')
                (setDisplay timezoneField Hidden
                  (setDisplay subTypePathField DNone
                    (setDisplay desiredReplicasField Visible
                      (setDisplay endField Visible
                        (setDisplay startField Visible
                          (setDisplay valueField DNone g))))))))
      else g)"

text \<open>The address of the type field of trigger \<open>i\<close>, and of a field of its metadata.\<close>

definition type_address :: "nat \<Rightarrow> address" where
  "type_address i = [Key ''triggers'', Idx i, Key ''type'']"

definition metadata_field :: "nat \<Rightarrow> string \<Rightarrow> address" where
  "metadata_field i name =
     [Key ''triggers'', Idx i, Key ''metadata'', Key ''layout'', Key ''grid'', Key name]"

definition display_at :: "graph \<Rightarrow> address \<Rightarrow> display option" where
  "display_at g a = map_option display (g a)"

definition value_at :: "graph \<Rightarrow> address \<Rightarrow> jsvalue option" where
  "value_at g a = map_option fvalue (g a)"

text \<open>The six metadata fields of trigger \<open>i\<close> exist and are data fields, as \<open>fieldsConfig\<close>
  declares them.\<close>

definition metadata_names :: "string list" where
  "metadata_names = [''type'', ''timezone'', ''value'', ''start'', ''end'', ''desiredReplicas'']"

definition row_mounted :: "graph \<Rightarrow> nat \<Rightarrow> bool" where
  "row_mounted g i = list_all (\<lambda>name. isField (g (metadata_field i name))) metadata_names"

text \<open>
  The metadata fields of trigger \<open>i\<close> as \<open>fieldsConfig\<close> creates them: all with display
  \<open>none\<close>, holding the values \<open>vs\<close> (in the order of \<open>metadata_names\<close>).
\<close>

definition schema_row :: "nat \<Rightarrow> jsvalue list \<Rightarrow> graph" where
  "schema_row i vs =
     map_of (map (\<lambda>(name, v). (metadata_field i name, \<lparr>display = DNone, fvalue = v, is_void = False\<rparr>))
                 (zip metadata_names vs))"

subsection \<open>The reactions on \<open>triggers.*.*.value\<close> and \<open>triggers.*.*.desiredReplicas\<close>\<close>

text \<open>A template literal \<open>`${v}`\<close>.\<close>

fun template_string :: "(real \<Rightarrow> string) \<Rightarrow> jsvalue \<Rightarrow> string" where
  "template_string shortest JUndefined = ''undefined''"
| "template_string shortest JNull = ''null''"
| "template_string shortest (JBool b) = (if b then ''true'' else ''false'')"
| "template_string shortest (JNum n) = number_to_string shortest n"
| "template_string shortest (JStr s) = s"

text \<open>
  \<open>field.setValue(isNumber(field.value) ? `${field.value}` : field.value)\<close>, registered
  once for each of the two paths.
\<close>

definition value_change_react :: "(real \<Rightarrow> string) \<Rightarrow> field \<Rightarrow> field" where
  "value_change_react shortest fld =
     fld\<lparr>fvalue := (if isNumber (fvalue fld) then JStr (template_string shortest (fvalue fld))
                      else fvalue fld)\<rparr>"

definition desiredReplicas_change_react :: "(real \<Rightarrow> string) \<Rightarrow> field \<Rightarrow> field" where
  "desiredReplicas_change_react shortest fld =
     fld\<lparr>fvalue := (if isNumber (fvalue fld) then JStr (template_string shortest (fvalue fld))
                      else fvalue fld)\<rparr>"

section \<open>Triggers and the trigger table\<close>

record metadata =
  m_type :: jsvalue
  m_timezone :: jsvalue
  m_value :: jsvalue
  m_start :: jsvalue
  m_end :: jsvalue
  m_desiredReplicas :: jsvalue

text \<open>A trigger of the form value; \<open>{}\<close> has neither a type nor a metadata object.\<close>

record trigger =
  ttype :: jsvalue
  metadata :: "metadata option"

definition empty_trigger :: trigger where
  "empty_trigger = \<lparr>ttype = JUndefined, metadata = None\<rparr>"

record type_option =
  ovalue :: string
  olabel :: string

text \<open>\<open>typeOptions\<close>; the label of \<open>memory\<close> is its translation key.\<close>

definition typeOptions :: "type_option list" where
  "typeOptions =
     [\<lparr>ovalue = ''cpu'', olabel = ''CPU''\<rparr>,
      \<lparr>ovalue = ''memory'', olabel = ''memory''\<rparr>,
      \<lparr>ovalue = ''cron'', olabel = ''Cron''\<rparr>]"

text \<open>\<open>currentTypes\<close>: the reduce that pushes every truthy type.\<close>

definition currentTypes :: "trigger list \<Rightarrow> jsvalue list" where
  "currentTypes ts = foldl (\<lambda>acc item. if truthy (ttype item) then acc @ [ttype item] else acc) [] ts"

text \<open>
  The options the effect gives to the type field of the trigger being edited.
  \<open>currentTypeField\<close> is what \<open>field.query(`triggers[${currentIndex}].type`).take()\<close>
  found; on \<open>undefined\<close> the call of \<open>setComponentProps\<close> throws, which is \<open>None\<close>.
\<close>

definition type_options :: "field option \<Rightarrow> jsvalue list \<Rightarrow> type_option list option" where
  "type_options currentTypeField cts =
     (case currentTypeField of
        None \<Rightarrow> None
      | Some f \<Rightarrow>
          Some (filter (\<lambda>opt. JStr (ovalue opt) \<notin> set cts
                               \<or> (isField currentTypeField \<and> fvalue f = JStr (ovalue opt)))
                       typeOptions))"

text \<open>The state of the \<open>TriggersConfig\<close> component; \<open>field_value\<close> is \<open>field.value\<close>, which
  is \<open>props.value\<close>.\<close>

record triggers_config =
  field_value :: "trigger list"
  visible :: bool
  previousValue :: "trigger list option"
  isEditing :: bool
  currentIndex :: int

text \<open>
  Modelled from the spec: the engine's \<open>field.remove(index)\<close> is not in these sources. It
  removes the trigger at \<open>index\<close> with \<open>splice(index, 1)\<close>: a negative index counts from
  the end, and an index past the end removes nothing.
\<close>

definition array_remove :: "int \<Rightarrow> 'a list \<Rightarrow> 'a list" where
  "array_remove index xs =
     (let len = int (length xs);
          start = (if index < 0 then max (len + index) 0 else min index len)
      in take (nat start) xs @ drop (nat start + 1) xs)"

text \<open>\<open>onAddRule\<close>; \<open>field.push({})\<close> appends the empty trigger to the triggers value.\<close>

definition onAddRule :: "triggers_config \<Rightarrow> triggers_config" where
  "onAddRule s =
     (let v = field_value s @ [empty_trigger]
      in s\<lparr>field_value := v, visible := True, isEditing := False,
           currentIndex := int (length v) - 1\<rparr>)"

text \<open>\<open>onOk\<close>: \<open>valid\<close> tells whether \<open>field.validate()\<close> resolved; when it rejects, the
  handler stops there.\<close>

definition onOk :: "bool \<Rightarrow> triggers_config \<Rightarrow> triggers_config" where
  "onOk valid s = (if valid then s\<lparr>visible := False\<rparr> else s)"

text \<open>\<open>onClose\<close> of the modal. With \<open>isEditing\<close> set and no snapshot, \<open>previousValue!\<close> is
  \<open>null\<close> and the triggers value is no list any more, which is \<open>None\<close>.\<close>

definition onClose :: "triggers_config \<Rightarrow> triggers_config option" where
  "onClose s =
     (if isEditing s then
        (case previousValue s of
           None \<Rightarrow> None
         | Some p \<Rightarrow> Some (s\<lparr>field_value := p, visible := False\<rparr>))
      else
        Some (s\<lparr>currentIndex := - 1,
                field_value := array_remove (currentIndex s) (field_value s),
                visible := False\<rparr>))"

text \<open>The two actions of the table row \<open>index\<close>.\<close>

definition edit_onClick :: "nat \<Rightarrow> triggers_config \<Rightarrow> triggers_config" where
  "edit_onClick index s =
     s\<lparr>previousValue := Some (field_value s), visible := True, isEditing := True,
       currentIndex := int index\<rparr>"

definition delete_onClick :: "nat \<Rightarrow> triggers_config \<Rightarrow> triggers_config" where
  "delete_onClick index s =
     s\<lparr>field_value := array_remove (int index) (field_value s), currentIndex := - 1\<rparr>"

definition btnDisabled :: "triggers_config \<Rightarrow> bool" where
  "btnDisabled s = (length (currentTypes (field_value s)) = 3)"

subsection \<open>What the user does inside the modal\<close>

text \<open>
  Modelled from the spec: the shared form state holds the draft value, so an input in the
  modal writes the form value in place. The modal renders the fields of the trigger at
  \<open>currentIndex\<close> only (\<open>RecursionField\<close> with \<open>name={currentIndex}\<close>), so an input
  there writes that trigger and no other.
\<close>

definition current_trigger :: "triggers_config \<Rightarrow> trigger option" where
  "current_trigger s =
     (if 0 \<le> currentIndex s \<and> nat (currentIndex s) < length (field_value s)
      then Some (field_value s ! nat (currentIndex s)) else None)"

definition modal_input :: "trigger \<Rightarrow> triggers_config \<Rightarrow> triggers_config" where
  "modal_input t s =
     (case current_trigger s of
        None \<Rightarrow> s
      | Some _ \<Rightarrow> s\<lparr>field_value := (field_value s)[nat (currentIndex s) := t]\<rparr>)"

text \<open>The type field of the trigger being edited: a data field holding that trigger's
  type.\<close>

definition currentTypeField :: "triggers_config \<Rightarrow> field option" where
  "currentTypeField s =
     map_option (\<lambda>t. \<lparr>display = Visible, fvalue = ttype t, is_void = False\<rparr>) (current_trigger s)"

text \<open>
  The effect that sets the options of the type field. It runs after \<open>visible\<close>,
  \<open>currentTypes\<close> or \<open>currentIndex\<close> changed, and does nothing while the modal is closed.
\<close>

datatype effect_result = Skipped | Threw | Options "type_option list"

definition options_effect :: "triggers_config \<Rightarrow> effect_result" where
  "options_effect s =
     (if visible s then
        (case type_options (currentTypeField s) (currentTypes (field_value s)) of
           None \<Rightarrow> Threw
         | Some opts \<Rightarrow> Options opts)
      else Skipped)"

text \<open>
  What the user can do in the add/edit protocol. The table and the add button are used
  while the modal is closed, and the add button only while it is not disabled; inside the
  open modal the user picks one of the offered types, edits the metadata, confirms (with
  the outcome of the validation) or cancels.
\<close>

datatype action =
    Add
  | Edit nat
  | Delete nat
  | SelectType type_option
  | EditMetadata "metadata option"
  | Ok bool
  | Cancel

text \<open>One step of the protocol; \<open>None\<close> when the interface does not offer the action.\<close>

fun perform :: "action \<Rightarrow> triggers_config \<Rightarrow> triggers_config option" where
  "perform Add s = (if \<not> visible s \<and> \<not> btnDisabled s then Some (onAddRule s) else None)"
| "perform (Edit index) s =
     (if \<not> visible s \<and> index < length (field_value s) then Some (edit_onClick index s) else None)"
| "perform (Delete index) s =
     (if \<not> visible s \<and> index < length (field_value s) then Some (delete_onClick index s)
      else None)"
| "perform (SelectType opt) s =
     (case (current_trigger s, options_effect s) of
        (Some t, Options opts) \<Rightarrow>
          if opt \<in> set opts then Some (modal_input (t\<lparr>ttype := JStr (ovalue opt)\<rparr>) s) else None
      | _ \<Rightarrow> None)"
| "perform (EditMetadata m) s =
     (case current_trigger s of
        Some t \<Rightarrow> if visible s then Some (modal_input (t\<lparr>metadata := m\<rparr>) s) else None
      | None \<Rightarrow> None)"
| "perform (Ok valid) s = (if visible s then Some (onOk valid s) else None)"
| "perform Cancel s = (if visible s then onClose s else None)"

fun run :: "action list \<Rightarrow> triggers_config \<Rightarrow> triggers_config option" where
  "run [] s = Some s"
| "run (a # as) s = (case perform a s of None \<Rightarrow> None | Some s' \<Rightarrow> run as s')"

text \<open>The triggers a form starts from: none, or those of a fetched rule, which hold each
  of the three types at most once.\<close>

definition known_types :: "jsvalue set" where
  "known_types = {JStr ''cpu'', JStr ''memory'', JStr ''cron''}"

definition one_per_type :: "trigger list \<Rightarrow> bool" where
  "one_per_type ts = (distinct (currentTypes ts) \<and> set (currentTypes ts) \<subseteq> known_types)"

definition initial_config :: "trigger list \<Rightarrow> triggers_config" where
  "initial_config ts =
     \<lparr>field_value = ts, visible = False, previousValue = None, isEditing = False,
      currentIndex = - 1\<rparr>"

section \<open>The drawer and its submission\<close>

text \<open>\<open>form.values\<close>, which is also the \<open>scaledConfig\<close> sent to the backend.\<close>

record scaled_config =
  triggers :: "trigger list"
  minReplicaCount :: jsvalue
  maxReplicaCount :: jsvalue

record rule =
  ruleId :: string
  isApplied :: string
  scaledConfig :: scaled_config

record scaled_rules =
  rules :: "rule list"

text \<open>An entry of the engine's feedback list: the invalid field and its messages.\<close>

record feedback =
  fb_address :: address
  messages :: "string list option"

text \<open>\<open>await form.validate()\<close> resolves, or rejects with the feedback list.\<close>

datatype validation = Resolved | Rejected "feedback list"

text \<open>What \<open>onSubmit\<close> does to the outside, in order. The drawer is closed after the
  awaited backend call; the list is that of a call that succeeds.\<close>

datatype call =
    MessageError "string option"
  | UpdateScaledRules jsnum "string option" scaled_config
  | CreateScaledRules jsnum string scaled_config
  | DrawerClose

text \<open>\<open>xs.join(', ')\<close>.\<close>

fun join :: "string \<Rightarrow> string list \<Rightarrow> string" where
  "join sep [] = []"
| "join sep [x] = x"
| "join sep (x # y # ys) = x @ sep @ join sep (y # ys)"

text \<open>\<open>isEditing\<close> of the drawer: \<open>!!scaledRules && !!scaledRules.rules.length\<close>.\<close>

definition drawer_isEditing :: "scaled_rules option \<Rightarrow> bool" where
  "drawer_isEditing scaledRules =
     (case scaledRules of None \<Rightarrow> False | Some sr \<Rightarrow> length (rules sr) \<noteq> 0)"

text \<open>\<open>scaledRules?.rules[0].ruleId\<close>, read only when \<open>isEditing\<close> holds; \<open>None\<close> is
  \<open>undefined\<close>.\<close>

definition first_ruleId :: "scaled_rules option \<Rightarrow> string option" where
  "first_ruleId scaledRules =
     (case scaledRules of
        None \<Rightarrow> None
      | Some sr \<Rightarrow> (case rules sr of [] \<Rightarrow> None | r # _ \<Rightarrow> Some (ruleId r)))"

text \<open>
  \<open>onSubmit\<close>. \<open>validated\<close> is the outcome of \<open>form.validate()\<close>, \<open>runtimeId\<close> the number
  \<open>+runtimeId\<close>.
\<close>

definition onSubmit ::
  "validation \<Rightarrow> scaled_rules option \<Rightarrow> jsnum \<Rightarrow> string \<Rightarrow> scaled_config \<Rightarrow> call list" where
  "onSubmit validated scaledRules runtimeId serviceName form_values =
     (case validated of
        Rejected errs \<Rightarrow> map (\<lambda>err. MessageError (map_option (join '', '') (messages err))) errs
      | Resolved \<Rightarrow>
          (let values = form_values\<lparr>triggers := filter (\<lambda>t. truthy (ttype t)) (triggers form_values)\<rparr>
           in (if drawer_isEditing scaledRules
               then [UpdateScaledRules runtimeId (first_ruleId scaledRules) values]
               else [CreateScaledRules runtimeId serviceName values])
              @ [DrawerClose]))"

definition is_backend_call :: "call \<Rightarrow> bool" where
  "is_backend_call c =
     (case c of UpdateScaledRules _ _ _ \<Rightarrow> True | CreateScaledRules _ _ _ \<Rightarrow> True | _ \<Rightarrow> False)"

text \<open>The condition of the specification for the editing mode: a fetched rule has at
  least one trigger.\<close>

definition spec_fetched_rule_has_trigger :: "scaled_rules option \<Rightarrow> bool" where
  "spec_fetched_rule_has_trigger scaledRules =
     (case scaledRules of
        None \<Rightarrow> False
      | Some sr \<Rightarrow> list_ex (\<lambda>r. triggers (scaledConfig r) \<noteq> []) (rules sr))"

subsection \<open>The rules of \<open>fieldsConfig\<close>\<close>

text \<open>The validator of \<open>metadata.value\<close>: \<open>+v > 0 && +v < 100\<close>, and its message.\<close>

definition value_validator :: "(string \<Rightarrow> jsnum) \<Rightarrow> jsvalue \<Rightarrow> bool" where
  "value_validator parse v =
     (num_less (Fin 0) (to_number parse v) \<and> num_less (to_number parse v) (Fin 100))"

definition value_message :: string where
  "value_message = ''The value must be greater than 0 and less than 100''"

definition triggers_message :: string where
  "triggers_message = ''At least one trigger''"

definition minReplicaCount_message :: string where
  "minReplicaCount_message = ''The minimum number of service instances is required''"

definition maxReplicaCount_message :: string where
  "maxReplicaCount_message = ''The maximum number of service instances is required''"

subsection \<open>Validation by the form engine\<close>

text \<open>
  Modelled from the spec: \<open>form.validate()\<close> belongs to the form engine, which is not in
  these sources. Following the specification, a missing required field and a percentage
  out of range are found before submission, one feedback entry for each invalid field,
  and only the fields the type reaction left visible take part. A required value is
  missing when it is \<open>undefined\<close>, \<open>null\<close> or the empty string. The text of a required
  rule that gives no message of its own is the engine's.
\<close>

definition is_empty :: "jsvalue \<Rightarrow> bool" where
  "is_empty v = (v = JUndefined \<or> v = JNull \<or> v = JStr [])"

definition default_required_message :: string where
  "default_required_message = ''The field value is required''"

definition required_rule :: "string \<Rightarrow> jsvalue \<Rightarrow> string list" where
  "required_rule msg v = (if is_empty v then [msg] else [])"

definition value_rules :: "(string \<Rightarrow> jsnum) \<Rightarrow> jsvalue \<Rightarrow> string list" where
  "value_rules parse v =
     required_rule default_required_message v
     @ (if value_validator parse v then [] else [value_message])"

definition field_feedback :: "address \<Rightarrow> string list \<Rightarrow> feedback list" where
  "field_feedback a msgs = (if msgs = [] then [] else [\<lparr>fb_address = a, messages = Some msgs\<rparr>])"

definition validate_visible :: "graph \<Rightarrow> address \<Rightarrow> (jsvalue \<Rightarrow> string list) \<Rightarrow> feedback list" where
  "validate_visible g a field_rules =
     (case g a of
        None \<Rightarrow> []
      | Some f \<Rightarrow> if display f = Visible then field_feedback a (field_rules (fvalue f)) else [])"

text \<open>The metadata of a trigger, in the order of \<open>metadata_names\<close>.\<close>

definition metadata_values :: "trigger \<Rightarrow> jsvalue list" where
  "metadata_values t =
     (case metadata t of
        None \<Rightarrow> replicate 6 JUndefined
      | Some m \<Rightarrow> [m_type m, m_timezone m, m_value m, m_start m, m_end m, m_desiredReplicas m])"

text \<open>The fields of trigger \<open>i\<close> after the type reaction has run on its type.\<close>

definition trigger_row :: "nat \<Rightarrow> trigger \<Rightarrow> graph" where
  "trigger_row i t =
     type_react (type_address i) \<lparr>display = Visible, fvalue = ttype t, is_void = False\<rparr>
       (schema_row i (metadata_values t))"

definition trigger_feedback :: "(string \<Rightarrow> jsnum) \<Rightarrow> nat \<Rightarrow> trigger \<Rightarrow> feedback list" where
  "trigger_feedback parse i t =
     field_feedback (type_address i) (required_rule default_required_message (ttype t))
     @ validate_visible (trigger_row i t) (metadata_field i ''value'') (value_rules parse)
     @ validate_visible (trigger_row i t) (metadata_field i ''start'')
         (required_rule default_required_message)
     @ validate_visible (trigger_row i t) (metadata_field i ''end'')
         (required_rule default_required_message)
     @ validate_visible (trigger_row i t) (metadata_field i ''desiredReplicas'')
         (required_rule default_required_message)"

definition form_feedback :: "(string \<Rightarrow> jsnum) \<Rightarrow> scaled_config \<Rightarrow> feedback list" where
  "form_feedback parse vals =
     field_feedback [Key ''triggers''] (if triggers vals = [] then [triggers_message] else [])
     @ concat (map (\<lambda>(i, t). trigger_feedback parse i t) (enumerate 0 (triggers vals)))
     @ field_feedback [Key ''void'', Key ''minReplicaCount'']
         (required_rule minReplicaCount_message (minReplicaCount vals))
     @ field_feedback [Key ''void'', Key ''maxReplicaCount'']
         (required_rule maxReplicaCount_message (maxReplicaCount vals))"

definition form_validate :: "(string \<Rightarrow> jsnum) \<Rightarrow> scaled_config \<Rightarrow> validation" where
  "form_validate parse vals =
     (if form_feedback parse vals = [] then Resolved else Rejected (form_feedback parse vals))"

text \<open>Every field of every trigger passes its own rules.\<close>

definition triggers_valid :: "(string \<Rightarrow> jsnum) \<Rightarrow> trigger list \<Rightarrow> bool" where
  "triggers_valid parse ts =
     (ts \<noteq> [] \<and> list_all (\<lambda>(i, t). trigger_feedback parse i t = []) (enumerate 0 ts))"

section \<open>Concrete forms\<close>

text \<open>The four fields whose display depends on the type alone.\<close>

definition conditional_fields :: "nat \<Rightarrow> address set" where
  "conditional_fields i = metadata_field i ` {''value'', ''start'', ''end'', ''desiredReplicas''}"

text \<open>The default values of \<open>fieldsConfig\<close> for the metadata of a new trigger.\<close>

definition schema_defaults :: "jsvalue list" where
  "schema_defaults =
     [JStr ''Utilization'', JStr ''Asia/Shanghai'', JUndefined, JUndefined, JUndefined, JUndefined]"

definition cpu_trigger :: trigger where
  "cpu_trigger =
     \<lparr>ttype = JStr ''cpu'',
      metadata = Some \<lparr>m_type = JStr ''Utilization'', m_timezone = JUndefined, m_value = JStr ''50'',
                       m_start = JUndefined, m_end = JUndefined, m_desiredReplicas = JUndefined\<rparr>\<rparr>"

definition memory_trigger :: trigger where
  "memory_trigger =
     \<lparr>ttype = JStr ''memory'',
      metadata = Some \<lparr>m_type = JStr ''Utilization'', m_timezone = JUndefined, m_value = JStr ''150'',
                       m_start = JUndefined, m_end = JUndefined, m_desiredReplicas = JUndefined\<rparr>\<rparr>"

text \<open>What the protocol keeps true: the triggers value, and the snapshot when there is
  one, hold each type at most once.\<close>

definition protocol_invariant :: "triggers_config \<Rightarrow> bool" where
  "protocol_invariant s =
     (one_per_type (field_value s)
      \<and> (case previousValue s of None \<Rightarrow> True | Some p \<Rightarrow> one_per_type p))"

text \<open>Adding a trigger to a \<open>cpu\<close> trigger, picking \<open>memory\<close> and confirming.\<close>

definition add_memory :: "action list" where
  "add_memory = [Add, SelectType \<lparr>ovalue = ''memory'', olabel = ''memory''\<rparr>, Ok True]"

text \<open>The \<open>scaledConfig\<close> a backend call carries.\<close>

definition submitted_config :: "call \<Rightarrow> scaled_config option" where
  "submitted_config c =
     (case c of
        UpdateScaledRules _ _ v \<Rightarrow> Some v
      | CreateScaledRules _ _ v \<Rightarrow> Some v
      | _ \<Rightarrow> None)"

text \<open>The percentage of a trigger, \<open>undefined\<close> when it has no metadata.\<close>

definition trigger_value :: "trigger \<Rightarrow> jsvalue" where
  "trigger_value t = (case metadata t of None \<Rightarrow> JUndefined | Some m \<Rightarrow> m_value m)"

text \<open>Form values and fetched rules used as examples.\<close>

definition two_triggers_form :: scaled_config where
  "two_triggers_form =
     \<lparr>triggers = [cpu_trigger, empty_trigger], minReplicaCount = JNum (Fin 1),
      maxReplicaCount = JNum (Fin 3)\<rparr>"

definition one_trigger_form :: scaled_config where
  "one_trigger_form =
     \<lparr>triggers = [cpu_trigger], minReplicaCount = JNum (Fin 1), maxReplicaCount = JNum (Fin 3)\<rparr>"

definition fetched_empty_rule :: "scaled_rules option" where
  "fetched_empty_rule =
     Some \<lparr>rules = [\<lparr>ruleId = ''r1'', isApplied = ''N'',
                       scaledConfig = \<lparr>triggers = [], minReplicaCount = JNum (Fin 1),
                                        maxReplicaCount = JNum (Fin 2)\<rparr>\<rparr>]\<rparr>"

definition out_of_range_form :: scaled_config where
  "out_of_range_form =
     \<lparr>triggers = [memory_trigger], minReplicaCount = JNum (Fin 1), maxReplicaCount = JNum (Fin 3)\<rparr>"

definition inverted_bounds_form :: scaled_config where
  "inverted_bounds_form =
     \<lparr>triggers = [cpu_trigger], minReplicaCount = JNum (Fin 5), maxReplicaCount = JNum (Fin 2)\<rparr>"

section \<open>Properties\<close>

subsection \<open>The setters and the type reaction\<close>

lemma setDisplay_apply:
  "setDisplay a d g x = (if x = a then map_option (\<lambda>f. f\<lparr>display := d\<rparr>) (g a) else g x)"
  by (simp add: setDisplay_def split: option.splits)

lemma setValue_if_field_apply:
  "setValue_if_field a v g x =
     (if x = a then map_option (\<lambda>f. if is_void f then f else f\<lparr>fvalue := v\<rparr>) (g a) else g x)"
  by (simp add: setValue_if_field_def isField_def split: option.splits)

lemma metadata_path_type_address:
  "butlast (type_address i) @ [Key ''metadata'', Key ''layout'', Key ''grid''] @ [Key name]
     = metadata_field i name"
  by (simp add: type_address_def metadata_field_def)

lemma metadata_field_inject [simp]:
  "(metadata_field i n = metadata_field j m) = (i = j \<and> n = m)"
  by (auto simp: metadata_field_def)

lemma type_react_unset:
  "\<not> is_void fld \<Longrightarrow> \<not> truthy (fvalue fld) \<Longrightarrow>
   type_react (type_address i) fld g =
     setDisplay (metadata_field i ''desiredReplicas'') DNone
       (setDisplay (metadata_field i ''end'') DNone
         (setDisplay (metadata_field i ''start'') DNone
           (setDisplay (metadata_field i ''value'') DNone g)))"
  by (simp add: type_react_def isField_def Let_def type_address_def metadata_field_def)

lemma type_react_utilization:
  "\<not> is_void fld \<Longrightarrow> truthy (fvalue fld) \<Longrightarrow> fvalue fld \<noteq> JStr ''cron'' \<Longrightarrow>
   type_react (type_address i) fld g =
     setDisplay (metadata_field i ''timezone'') DNone
       (setValue_if_field (metadata_field i ''type'') (JStr ''Utilization'')
         (setDisplay (metadata_field i ''type'') Hidden
           (setDisplay (metadata_field i ''desiredReplicas'') DNone
             (setDisplay (metadata_field i ''end'') DNone
               (setDisplay (metadata_field i ''start'') DNone
                 (setDisplay (metadata_field i ''value'') Visible g))))))"
  by (simp add: type_react_def isField_def Let_def type_address_def metadata_field_def)

lemma type_react_cron:
  "\<not> is_void fld \<Longrightarrow> fvalue fld = JStr ''cron'' \<Longrightarrow>
   type_react (type_address i) fld g =
     setValue_if_field (metadata_field i ''timezone'') (JStr ''Asia/Shanghai'')
       (setDisplay (metadata_field i ''timezone'') Hidden
         (setDisplay (metadata_field i ''type'') DNone
           (setDisplay (metadata_field i ''desiredReplicas'') Visible
             (setDisplay (metadata_field i ''end'') Visible
               (setDisplay (metadata_field i ''start'') Visible
                 (setDisplay (metadata_field i ''value'') DNone g))))))"
  by (simp add: type_react_def isField_def Let_def type_address_def metadata_field_def)

lemma row_mounted_field:
  "row_mounted g i \<Longrightarrow> name \<in> set metadata_names \<Longrightarrow>
   \<exists>f. g (metadata_field i name) = Some f \<and> \<not> is_void f"
  by (auto simp: row_mounted_def list_all_iff isField_def split: option.splits)

text \<open>
  Claim C1. For every trigger index \<open>i\<close>, once the type field of trigger \<open>i\<close> holds
  \<open>cpu\<close> or \<open>memory\<close>, the reaction leaves \<open>value\<close> visible, \<open>start\<close>, \<open>end\<close> and
  \<open>desiredReplicas\<close> with display \<open>none\<close>, the subtype marker hidden with the value
  \<open>Utilization\<close>, and \<open>timezone\<close> with display \<open>none\<close>; once it holds \<open>cron\<close>, \<open>value\<close>
  has display \<open>none\<close>, \<open>start\<close>, \<open>end\<close> and \<open>desiredReplicas\<close> are visible, the subtype
  marker has display \<open>none\<close>, and \<open>timezone\<close> is hidden with the value \<open>Asia/Shanghai\<close>.
  The metadata fields of the trigger are those \<open>fieldsConfig\<close> declares.
\<close>

theorem C1_type_react_table:
  assumes fld: "\<not> is_void fld" and mounted: "row_mounted g i"
  shows "(fvalue fld = JStr ''cpu'' \<or> fvalue fld = JStr ''memory'' \<longrightarrow>
            display_at (type_react (type_address i) fld g) (metadata_field i ''value'') = Some Visible
          \<and> display_at (type_react (type_address i) fld g) (metadata_field i ''start'') = Some DNone
          \<and> display_at (type_react (type_address i) fld g) (metadata_field i ''end'') = Some DNone
          \<and> display_at (type_react (type_address i) fld g) (metadata_field i ''desiredReplicas'') = Some DNone
          \<and> display_at (type_react (type_address i) fld g) (metadata_field i ''type'') = Some Hidden
          \<and> value_at (type_react (type_address i) fld g) (metadata_field i ''type'') = Some (JStr ''Utilization'')
          \<and> display_at (type_react (type_address i) fld g) (metadata_field i ''timezone'') = Some DNone)
       \<and> (fvalue fld = JStr ''cron'' \<longrightarrow>
            display_at (type_react (type_address i) fld g) (metadata_field i ''value'') = Some DNone
          \<and> display_at (type_react (type_address i) fld g) (metadata_field i ''start'') = Some Visible
          \<and> display_at (type_react (type_address i) fld g) (metadata_field i ''end'') = Some Visible
          \<and> display_at (type_react (type_address i) fld g) (metadata_field i ''desiredReplicas'') = Some Visible
          \<and> display_at (type_react (type_address i) fld g) (metadata_field i ''type'') = Some DNone
          \<and> display_at (type_react (type_address i) fld g) (metadata_field i ''timezone'') = Some Hidden
          \<and> value_at (type_react (type_address i) fld g) (metadata_field i ''timezone'') = Some (JStr ''Asia/Shanghai''))"
proof -
  have names: "''value'' \<in> set metadata_names" "''start'' \<in> set metadata_names"
    "''end'' \<in> set metadata_names" "''desiredReplicas'' \<in> set metadata_names"
    "''type'' \<in> set metadata_names" "''timezone'' \<in> set metadata_names"
    by (simp_all add: metadata_names_def)
  note ex = names [THEN row_mounted_field [OF mounted]]
  from ex obtain fv fs fe fd ft fz where
    g: "g (metadata_field i ''value'') = Some fv" "g (metadata_field i ''start'') = Some fs"
       "g (metadata_field i ''end'') = Some fe" "g (metadata_field i ''desiredReplicas'') = Some fd"
       "g (metadata_field i ''type'') = Some ft" "g (metadata_field i ''timezone'') = Some fz"
    and nv: "\<not> is_void ft" "\<not> is_void fz"
    by blast
  have util: "truthy (fvalue fld) \<and> fvalue fld \<noteq> JStr ''cron''"
    if "fvalue fld = JStr ''cpu'' \<or> fvalue fld = JStr ''memory''"
    using that by auto
  show ?thesis
  proof (intro conjI impI)
    assume a: "fvalue fld = JStr ''cpu'' \<or> fvalue fld = JStr ''memory''"
    note r = type_react_utilization [OF fld util [OF a, THEN conjunct1] util [OF a, THEN conjunct2]]
    show "display_at (type_react (type_address i) fld g) (metadata_field i ''value'') = Some Visible"
      by (simp add: r display_at_def setDisplay_apply setValue_if_field_apply g)
    show "display_at (type_react (type_address i) fld g) (metadata_field i ''start'') = Some DNone"
      by (simp add: r display_at_def setDisplay_apply setValue_if_field_apply g)
    show "display_at (type_react (type_address i) fld g) (metadata_field i ''end'') = Some DNone"
      by (simp add: r display_at_def setDisplay_apply setValue_if_field_apply g)
    show "display_at (type_react (type_address i) fld g) (metadata_field i ''desiredReplicas'') = Some DNone"
      by (simp add: r display_at_def setDisplay_apply setValue_if_field_apply g)
    show "display_at (type_react (type_address i) fld g) (metadata_field i ''type'') = Some Hidden"
      by (simp add: r display_at_def setDisplay_apply setValue_if_field_apply g nv)
    show "value_at (type_react (type_address i) fld g) (metadata_field i ''type'') = Some (JStr ''Utilization'')"
      by (simp add: r value_at_def setDisplay_apply setValue_if_field_apply g nv)
    show "display_at (type_react (type_address i) fld g) (metadata_field i ''timezone'') = Some DNone"
      by (simp add: r display_at_def setDisplay_apply setValue_if_field_apply g)
  next
    assume a: "fvalue fld = JStr ''cron''"
    note r = type_react_cron [OF fld a]
    show "display_at (type_react (type_address i) fld g) (metadata_field i ''value'') = Some DNone"
      by (simp add: r display_at_def setDisplay_apply setValue_if_field_apply g)
    show "display_at (type_react (type_address i) fld g) (metadata_field i ''start'') = Some Visible"
      by (simp add: r display_at_def setDisplay_apply setValue_if_field_apply g)
    show "display_at (type_react (type_address i) fld g) (metadata_field i ''end'') = Some Visible"
      by (simp add: r display_at_def setDisplay_apply setValue_if_field_apply g)
    show "display_at (type_react (type_address i) fld g) (metadata_field i ''desiredReplicas'') = Some Visible"
      by (simp add: r display_at_def setDisplay_apply setValue_if_field_apply g)
    show "display_at (type_react (type_address i) fld g) (metadata_field i ''type'') = Some DNone"
      by (simp add: r display_at_def setDisplay_apply setValue_if_field_apply g)
    show "display_at (type_react (type_address i) fld g) (metadata_field i ''timezone'') = Some Hidden"
      by (simp add: r display_at_def setDisplay_apply setValue_if_field_apply g nv)
    show "value_at (type_react (type_address i) fld g) (metadata_field i ''timezone'') = Some (JStr ''Asia/Shanghai'')"
      by (simp add: r value_at_def setDisplay_apply setValue_if_field_apply g nv)
  qed
qed

lemma row_mounted_schema_row: "length vs = 6 \<Longrightarrow> row_mounted (schema_row i vs) i"
proof -
  assume "length vs = 6"
  then obtain a b c d e f where vs: "vs = [a, b, c, d, e, f]"
    by (auto simp: length_Suc_conv numeral_eq_Suc)
  show ?thesis
    by (simp add: vs row_mounted_def schema_row_def metadata_names_def isField_def)
qed

theorem C1_witness:
  "display_at (type_react (type_address 0) \<lparr>display = Visible, fvalue = JStr ''memory'', is_void = False\<rparr>
      (schema_row 0 schema_defaults)) (metadata_field 0 ''value'') = Some Visible
   \<and> value_at (type_react (type_address 0) \<lparr>display = Visible, fvalue = JStr ''memory'', is_void = False\<rparr>
      (schema_row 0 schema_defaults)) (metadata_field 0 ''type'') = Some (JStr ''Utilization'')
   \<and> display_at (type_react (type_address 1) \<lparr>display = Visible, fvalue = JStr ''cron'', is_void = False\<rparr>
      (schema_row 1 schema_defaults)) (metadata_field 1 ''start'') = Some Visible
   \<and> display_at (type_react (type_address 1) \<lparr>display = Visible, fvalue = JStr ''cron'', is_void = False\<rparr>
      (schema_row 1 schema_defaults)) (metadata_field 1 ''timezone'') = Some Hidden"
proof -
  have m: "row_mounted (schema_row 0 schema_defaults) 0" "row_mounted (schema_row 1 schema_defaults) 1"
    by (simp_all add: row_mounted_schema_row schema_defaults_def)
  show ?thesis
    using C1_type_react_table
            [of "\<lparr>display = Visible, fvalue = JStr ''memory'', is_void = False\<rparr>"
                "schema_row 0 schema_defaults" 0, OF _ m(1)]
          C1_type_react_table
            [of "\<lparr>display = Visible, fvalue = JStr ''cron'', is_void = False\<rparr>"
                "schema_row 1 schema_defaults" 1, OF _ m(2)]
    by simp
qed

text \<open>
  Claim C2. For every trigger index \<open>i\<close>, once the type field of trigger \<open>i\<close> holds the
  empty string (or any other falsy value), the reaction gives display \<open>none\<close> to \<open>value\<close>,
  \<open>start\<close>, \<open>end\<close> and \<open>desiredReplicas\<close>, leaves every other field as it was, and leaves
  the value of every field as it was.
\<close>

theorem C2_unset_hides_and_keeps_values:
  assumes "\<not> is_void fld" and "\<not> truthy (fvalue fld)"
  shows "(\<forall>a \<in> conditional_fields i.
            display_at (type_react (type_address i) fld g) a = map_option (\<lambda>_. DNone) (g a))
       \<and> (\<forall>a. a \<notin> conditional_fields i \<longrightarrow> type_react (type_address i) fld g a = g a)
       \<and> (\<forall>a. value_at (type_react (type_address i) fld g) a = value_at g a)"
proof -
  note r = type_react_unset [OF assms, of i g]
  have "\<forall>a \<in> conditional_fields i.
            display_at (type_react (type_address i) fld g) a = map_option (\<lambda>_. DNone) (g a)"
    by (auto simp: r conditional_fields_def display_at_def setDisplay_apply option.map_comp comp_def)
  moreover have "\<forall>a. a \<notin> conditional_fields i \<longrightarrow> type_react (type_address i) fld g a = g a"
    by (auto simp: r conditional_fields_def setDisplay_apply)
  moreover have "\<forall>a. value_at (type_react (type_address i) fld g) a = value_at g a"
    by (auto simp: r value_at_def setDisplay_apply option.map_comp comp_def)
  ultimately show ?thesis by blast
qed

theorem C2_witness:
  "display_at (type_react (type_address 0) \<lparr>display = Visible, fvalue = JStr '''', is_void = False\<rparr>
      (setDisplay (metadata_field 0 ''value'') Visible
         (schema_row 0 [JStr ''Utilization'', JUndefined, JStr ''42'', JUndefined, JUndefined, JUndefined])))
      (metadata_field 0 ''value'') = Some DNone
   \<and> value_at (type_react (type_address 0) \<lparr>display = Visible, fvalue = JStr '''', is_void = False\<rparr>
      (setDisplay (metadata_field 0 ''value'') Visible
         (schema_row 0 [JStr ''Utilization'', JUndefined, JStr ''42'', JUndefined, JUndefined, JUndefined])))
      (metadata_field 0 ''value'') = Some (JStr ''42'')
   \<and> display_at (type_react (type_address 0) \<lparr>display = Visible, fvalue = JStr '''', is_void = False\<rparr>
      (setDisplay (metadata_field 0 ''type'') Hidden
         (schema_row 0 [JStr ''Utilization'', JUndefined, JStr ''42'', JUndefined, JUndefined, JUndefined])))
      (metadata_field 0 ''type'') = Some Hidden"
proof -
  let ?f = "\<lparr>display = Visible, fvalue = JStr '''', is_void = False\<rparr>"
  let ?r = "schema_row 0 [JStr ''Utilization'', JUndefined, JStr ''42'', JUndefined, JUndefined, JUndefined]"
  let ?g = "setDisplay (metadata_field 0 ''value'') Visible ?r"
  let ?h = "setDisplay (metadata_field 0 ''type'') Hidden ?r"
  have f: "\<not> is_void ?f" "\<not> truthy (fvalue ?f)" by simp_all
  have c: "metadata_field 0 ''value'' \<in> conditional_fields 0"
    "metadata_field 0 ''type'' \<notin> conditional_fields 0"
    by (simp_all add: conditional_fields_def)
  have g: "?g (metadata_field 0 ''value'')
             = Some \<lparr>display = Visible, fvalue = JStr ''42'', is_void = False\<rparr>"
    "?h (metadata_field 0 ''type'')
             = Some \<lparr>display = Hidden, fvalue = JStr ''Utilization'', is_void = False\<rparr>"
    by (simp_all add: setDisplay_apply schema_row_def metadata_names_def)
  note t1 = C2_unset_hides_and_keeps_values [OF f, of 0 ?g]
  note t2 = C2_unset_hides_and_keeps_values [OF f, of 0 ?h]
  have "display_at (type_react (type_address 0) ?f ?g) (metadata_field 0 ''value'') = Some DNone"
    using t1 [THEN conjunct1, rule_format, OF c(1)] by (simp add: g)
  moreover have "value_at (type_react (type_address 0) ?f ?g) (metadata_field 0 ''value'') = Some (JStr ''42'')"
    using t1 [THEN conjunct2, THEN conjunct2, rule_format, of "metadata_field 0 ''value''"]
    by (simp add: g value_at_def)
  moreover have "display_at (type_react (type_address 0) ?f ?h) (metadata_field 0 ''type'') = Some Hidden"
    using t2 [THEN conjunct2, THEN conjunct1, rule_format, OF c(2)]
    by (simp add: g display_at_def)
  ultimately show ?thesis by blast
qed

subsection \<open>Numbers stored as strings\<close>

lemma digits_val_snoc: "digits_val (s @ [c]) = 10 * digits_val s + digit_val c"
  by (simp add: digits_val_def)

lemma digit_char_digit:
  assumes "d < 10"
  shows "is_digit (digit_char d) \<and> digit_val (digit_char d) = d"
proof -
  from assms have "d = 0 \<or> d = 1 \<or> d = 2 \<or> d = 3 \<or> d = 4 \<or> d = 5 \<or> d = 6 \<or> d = 7
      \<or> d = 8 \<or> d = 9"
    by arith
  then consider "d = 0" | "d = 1" | "d = 2" | "d = 3" | "d = 4" | "d = 5" | "d = 6"
    | "d = 7" | "d = 8" | "d = 9"
    by blast
  then show ?thesis
    by cases (simp_all add: digit_char_def is_digit_def digit_val_def)
qed

lemma decimal_digits: "list_all is_digit (decimal n) \<and> decimal n \<noteq> [] \<and> digits_val (decimal n) = n"
proof (induction n rule: decimal.induct)
  case (1 n)
  show ?case
  proof (cases "n < 10")
    case True
    then show ?thesis
      using digit_char_digit [of n] by (simp add: decimal.simps [of n] digits_val_def)
  next
    case False
    then show ?thesis
      using "1.IH" digit_char_digit [of "n mod 10"]
      by (simp add: decimal.simps [of n] digits_val_snoc)
  qed
qed

lemma string_to_number_decimal:
  "n < 2 ^ 53 \<Longrightarrow> string_to_number parse (decimal n) = Fin (real n)"
  by (simp add: string_to_number_def decimal_digits)

lemma number_to_string_nat:
  "n < 2 ^ 53 \<Longrightarrow> number_to_string shortest (Fin (real n)) = decimal n"
proof -
  assume "n < 2 ^ 53"
  then have "real n < 2 ^ 53"
    by (metis of_nat_less_iff of_nat_numeral of_nat_power)
  then show ?thesis by (simp add: safe_integer_def)
qed

text \<open>
  Claim C5. When a field on the path \<open>triggers.*.*.value\<close> or
  \<open>triggers.*.*.desiredReplicas\<close> changes and its new value is a number, the reaction
  stores the string of that number: for an integer below \<open>2^53\<close> its decimal digits,
  which read back as the same number, so that \<open>85\<close> is stored as \<open>'85'\<close>. A value that is
  no number is stored unchanged.
\<close>

theorem C5_numeric_value_stored_as_string:
  "(\<forall>n. fvalue fld = JNum n \<longrightarrow>
        fvalue (value_change_react shortest fld) = JStr (number_to_string shortest n)
      \<and> fvalue (desiredReplicas_change_react shortest fld) = JStr (number_to_string shortest n))
   \<and> (\<forall>k. k < 2 ^ 53 \<longrightarrow> fvalue fld = JNum (Fin (real k)) \<longrightarrow>
        fvalue (value_change_react shortest fld) = JStr (decimal k)
      \<and> fvalue (desiredReplicas_change_react shortest fld) = JStr (decimal k)
      \<and> to_number parse (JStr (decimal k)) = Fin (real k))
   \<and> (fvalue fld = JNum (Fin 85) \<longrightarrow>
        fvalue (value_change_react shortest fld) = JStr ''85''
      \<and> fvalue (desiredReplicas_change_react shortest fld) = JStr ''85'')
   \<and> (\<not> isNumber (fvalue fld) \<longrightarrow>
        value_change_react shortest fld = fld \<and> desiredReplicas_change_react shortest fld = fld)"
proof (intro conjI allI impI)
  fix n assume "fvalue fld = JNum n"
  then show "fvalue (value_change_react shortest fld) = JStr (number_to_string shortest n)"
    "fvalue (desiredReplicas_change_react shortest fld) = JStr (number_to_string shortest n)"
    by (simp_all add: value_change_react_def desiredReplicas_change_react_def)
next
  fix k :: nat assume k: "k < 2 ^ 53" and v: "fvalue fld = JNum (Fin (real k))"
  show "fvalue (value_change_react shortest fld) = JStr (decimal k)"
    "fvalue (desiredReplicas_change_react shortest fld) = JStr (decimal k)"
    using number_to_string_nat [OF k, of shortest]
    by (simp_all add: value_change_react_def desiredReplicas_change_react_def v)
  show "to_number parse (JStr (decimal k)) = Fin (real k)"
    by (simp add: string_to_number_decimal [OF k])
next
  assume v: "fvalue fld = JNum (Fin 85)"
  have "number_to_string shortest (Fin 85) = ''85''"
    by (simp add: decimal.simps digit_char_def safe_integer_def)
  then show "fvalue (value_change_react shortest fld) = JStr ''85''"
    "fvalue (desiredReplicas_change_react shortest fld) = JStr ''85''"
    by (simp_all add: value_change_react_def desiredReplicas_change_react_def v)
next
  assume "\<not> isNumber (fvalue fld)"
  then show "value_change_react shortest fld = fld" "desiredReplicas_change_react shortest fld = fld"
    by (simp_all add: value_change_react_def desiredReplicas_change_react_def)
qed

theorem C5_witness:
  "fvalue (value_change_react (\<lambda>r. []) \<lparr>display = Visible, fvalue = JNum (Fin 85), is_void = False\<rparr>)
     = JStr ''85''
   \<and> fvalue (desiredReplicas_change_react (\<lambda>r. []) \<lparr>display = Visible, fvalue = JNum (Fin 3), is_void = False\<rparr>)
     = JStr ''3''
   \<and> value_change_react (\<lambda>r. []) \<lparr>display = Visible, fvalue = JStr ''85'', is_void = False\<rparr>
     = \<lparr>display = Visible, fvalue = JStr ''85'', is_void = False\<rparr>
   \<and> desiredReplicas_change_react (\<lambda>r. []) \<lparr>display = Visible, fvalue = JNull, is_void = False\<rparr>
     = \<lparr>display = Visible, fvalue = JNull, is_void = False\<rparr>"
proof (intro conjI)
  show "fvalue (value_change_react (\<lambda>r. []) \<lparr>display = Visible, fvalue = JNum (Fin 85), is_void = False\<rparr>)
     = JStr ''85''"
    using C5_numeric_value_stored_as_string
        [of "\<lparr>display = Visible, fvalue = JNum (Fin 85), is_void = False\<rparr>" "\<lambda>r. []" "\<lambda>s. NaN",
         THEN conjunct2, THEN conjunct2, THEN conjunct1]
    by simp
  have d3: "decimal 3 = ''3''" by (simp add: decimal.simps digit_char_def)
  show "fvalue (desiredReplicas_change_react (\<lambda>r. []) \<lparr>display = Visible, fvalue = JNum (Fin 3), is_void = False\<rparr>)
     = JStr ''3''"
    using C5_numeric_value_stored_as_string
        [of "\<lparr>display = Visible, fvalue = JNum (Fin 3), is_void = False\<rparr>" "\<lambda>r. []" "\<lambda>s. NaN",
         THEN conjunct2, THEN conjunct1, rule_format, of 3]
    by (simp add: d3)
  show "value_change_react (\<lambda>r. []) \<lparr>display = Visible, fvalue = JStr ''85'', is_void = False\<rparr>
     = \<lparr>display = Visible, fvalue = JStr ''85'', is_void = False\<rparr>"
    using C5_numeric_value_stored_as_string
        [of "\<lparr>display = Visible, fvalue = JStr ''85'', is_void = False\<rparr>" "\<lambda>r. []" "\<lambda>s. NaN",
         THEN conjunct2, THEN conjunct2, THEN conjunct2]
    by simp
  show "desiredReplicas_change_react (\<lambda>r. []) \<lparr>display = Visible, fvalue = JNull, is_void = False\<rparr>
     = \<lparr>display = Visible, fvalue = JNull, is_void = False\<rparr>"
    using C5_numeric_value_stored_as_string
        [of "\<lparr>display = Visible, fvalue = JNull, is_void = False\<rparr>" "\<lambda>r. []" "\<lambda>s. NaN",
         THEN conjunct2, THEN conjunct2, THEN conjunct2]
    by simp
qed

subsection \<open>Cancelling the modal\<close>

lemma foldl_currentTypes:
  "foldl (\<lambda>acc item. if truthy (ttype item) then acc @ [ttype item] else acc) acc ts
     = acc @ filter truthy (map ttype ts)"
  by (induction ts arbitrary: acc) auto

lemma currentTypes_filter: "currentTypes ts = filter truthy (map ttype ts)"
  by (simp add: currentTypes_def foldl_currentTypes)

lemma modal_input_frame:
  "currentIndex (modal_input t s) = currentIndex s"
  "isEditing (modal_input t s) = isEditing s"
  "previousValue (modal_input t s) = previousValue s"
  "visible (modal_input t s) = visible s"
  "length (field_value (modal_input t s)) = length (field_value s)"
  "take (nat (currentIndex s)) (field_value (modal_input t s)) = take (nat (currentIndex s)) (field_value s)"
  by (simp_all add: modal_input_def split: option.splits)

lemma modal_inputs_frame:
  "currentIndex (foldl (\<lambda>s t. modal_input t s) s inputs) = currentIndex s
   \<and> isEditing (foldl (\<lambda>s t. modal_input t s) s inputs) = isEditing s
   \<and> previousValue (foldl (\<lambda>s t. modal_input t s) s inputs) = previousValue s
   \<and> length (field_value (foldl (\<lambda>s t. modal_input t s) s inputs)) = length (field_value s)
   \<and> take (nat (currentIndex s)) (field_value (foldl (\<lambda>s t. modal_input t s) s inputs))
       = take (nat (currentIndex s)) (field_value s)"
proof (induction inputs arbitrary: s)
  case Nil
  show ?case by simp
next
  case (Cons t inputs)
  show ?case using Cons.IH [of "modal_input t s"] by (simp add: modal_input_frame)
qed

lemma array_remove_last:
  "length xs = Suc n \<Longrightarrow> array_remove (int n) xs = take n xs"
  by (simp add: array_remove_def Let_def)

text \<open>
  Claim C8. Cancelling the modal restores the triggers value from before the interaction:
  after an add, which appended an empty trigger at the trailing index, and after an edit,
  which took a snapshot, whatever the user typed into the modal in between, the triggers
  value after the cancel is the one before the add or the edit.
\<close>

theorem C8_cancel_restores:
  "map_option field_value (onClose (foldl (\<lambda>s t. modal_input t s) (onAddRule s) inputs))
     = Some (field_value s)
   \<and> map_option field_value (onClose (foldl (\<lambda>s t. modal_input t s) (edit_onClick index s) inputs))
     = Some (field_value s)"
proof
  let ?a = "onAddRule s"
  let ?s' = "foldl (\<lambda>s t. modal_input t s) ?a inputs"
  have a: "currentIndex ?a = int (length (field_value s))" "isEditing ?a = False"
    "field_value ?a = field_value s @ [empty_trigger]"
    by (simp_all add: onAddRule_def Let_def)
  note fr = modal_inputs_frame [of ?a inputs]
  have idx: "currentIndex ?s' = int (length (field_value s))" and ed: "\<not> isEditing ?s'"
    and len: "length (field_value ?s') = Suc (length (field_value s))"
    and tk: "take (length (field_value s)) (field_value ?s') = field_value s"
    using fr by (simp_all add: a)
  show "map_option field_value (onClose ?s') = Some (field_value s)"
    using array_remove_last [OF len] by (simp add: onClose_def ed idx tk)
next
  let ?e = "edit_onClick index s"
  let ?s' = "foldl (\<lambda>s t. modal_input t s) ?e inputs"
  note fr = modal_inputs_frame [of ?e inputs]
  have "isEditing ?s'" "previousValue ?s' = Some (field_value s)"
    using fr by (simp_all add: edit_onClick_def)
  then show "map_option field_value (onClose ?s') = Some (field_value s)"
    by (simp add: onClose_def)
qed

theorem C8_witness:
  "map_option field_value
     (onClose (foldl (\<lambda>s t. modal_input t s) (onAddRule (initial_config [cpu_trigger]))
        [empty_trigger\<lparr>ttype := JStr ''memory''\<rparr>])) = Some [cpu_trigger]
   \<and> map_option field_value
     (onClose (foldl (\<lambda>s t. modal_input t s) (edit_onClick 0 (initial_config [cpu_trigger]))
        [cpu_trigger\<lparr>ttype := JStr ''cron''\<rparr>])) = Some [cpu_trigger]"
  using C8_cancel_restores [of "initial_config [cpu_trigger]" "[empty_trigger\<lparr>ttype := JStr ''memory''\<rparr>]"]
    C8_cancel_restores [of "initial_config [cpu_trigger]" "[cpu_trigger\<lparr>ttype := JStr ''cron''\<rparr>]" 0]
  by (simp add: initial_config_def)

subsection \<open>The options of the type field\<close>

lemma ovalue_typeOptions: "ovalue ` set typeOptions = {''cpu'', ''memory'', ''cron''}"
  by (simp add: typeOptions_def)

lemma typeOptions_truthy: "opt \<in> set typeOptions \<Longrightarrow> truthy (JStr (ovalue opt))"
  by (auto simp: typeOptions_def)

lemma mem_currentTypes: "x \<in> set (currentTypes ts) \<longleftrightarrow> x \<in> ttype ` set ts \<and> truthy x"
  by (auto simp: currentTypes_filter)

lemma current_trigger_in_range:
  "current_trigger s = Some t \<Longrightarrow>
   0 \<le> currentIndex s \<and> nat (currentIndex s) < length (field_value s)
   \<and> t = field_value s ! nat (currentIndex s)"
  by (simp add: current_trigger_def split: if_splits)

text \<open>
  Claim C3. For every trigger list and every index being edited, the types offered to
  the trigger at that index are the types among \<open>cpu\<close>, \<open>memory\<close> and \<open>cron\<close> that no
  trigger of the list holds, together with the type the edited trigger holds itself. For
  the list of a \<open>cpu\<close> and a \<open>memory\<close> trigger, a third trigger that has just been added
  is offered \<open>cron\<close> and nothing else.
\<close>

theorem C3_type_options:
  "(visible s \<longrightarrow> current_trigger s = Some t \<longrightarrow>
      (\<exists>opts. options_effect s = Options opts
          \<and> ovalue ` set opts =
              (ovalue ` set typeOptions - {v. JStr v \<in> ttype ` set (field_value s)})
              \<union> (ovalue ` set typeOptions \<inter> {v. ttype t = JStr v})))
   \<and> ovalue ` set typeOptions = {''cpu'', ''memory'', ''cron''}
   \<and> options_effect
         (onAddRule (s\<lparr>field_value := [\<lparr>ttype = JStr ''cpu'', metadata = m1\<rparr>,
                                         \<lparr>ttype = JStr ''memory'', metadata = m2\<rparr>]\<rparr>))
       = Options [\<lparr>ovalue = ''cron'', olabel = ''Cron''\<rparr>]"
proof (intro conjI impI)
  assume vis: "visible s" and cur: "current_trigger s = Some t"
  let ?opts = "filter (\<lambda>opt. JStr (ovalue opt) \<notin> set (currentTypes (field_value s))
                              \<or> ttype t = JStr (ovalue opt)) typeOptions"
  have 1: "options_effect s = Options ?opts"
    by (simp add: options_effect_def vis type_options_def currentTypeField_def cur isField_def)
  have 2: "ovalue ` set ?opts =
              (ovalue ` set typeOptions - {v. JStr v \<in> ttype ` set (field_value s)})
              \<union> (ovalue ` set typeOptions \<inter> {v. ttype t = JStr v})"
    using typeOptions_truthy by (auto simp: mem_currentTypes)
  show "\<exists>opts. options_effect s = Options opts
          \<and> ovalue ` set opts =
              (ovalue ` set typeOptions - {v. JStr v \<in> ttype ` set (field_value s)})
              \<union> (ovalue ` set typeOptions \<inter> {v. ttype t = JStr v})"
    using 1 2 by blast
next
  show "ovalue ` set typeOptions = {''cpu'', ''memory'', ''cron''}"
    by (rule ovalue_typeOptions)
next
  let ?ts = "[\<lparr>ttype = JStr ''cpu'', metadata = m1\<rparr>, \<lparr>ttype = JStr ''memory'', metadata = m2\<rparr>]"
  let ?a = "onAddRule (s\<lparr>field_value := ?ts\<rparr>)"
  have v: "field_value ?a = ?ts @ [empty_trigger]" "visible ?a" "currentIndex ?a = 2"
    by (simp_all add: onAddRule_def Let_def)
  have c: "current_trigger ?a = Some empty_trigger"
    by (simp add: current_trigger_def v)
  have ct: "currentTypes (field_value ?a) = [JStr ''cpu'', JStr ''memory'']"
    unfolding v by (simp add: currentTypes_filter empty_trigger_def)
  show "options_effect ?a = Options [\<lparr>ovalue = ''cron'', olabel = ''Cron''\<rparr>]"
    unfolding options_effect_def ct
    by (simp add: v type_options_def currentTypeField_def c isField_def typeOptions_def
        empty_trigger_def)
qed

theorem C3_witness:
  "\<exists>opts. options_effect (edit_onClick 0 (initial_config [cpu_trigger, memory_trigger])) = Options opts
          \<and> ovalue ` set opts = {''cpu'', ''cron''}"
proof -
  let ?s = "edit_onClick 0 (initial_config [cpu_trigger, memory_trigger])"
  have vis: "visible ?s" by (simp add: edit_onClick_def)
  have c: "current_trigger ?s = Some cpu_trigger"
    by (simp add: current_trigger_def edit_onClick_def initial_config_def)
  have v: "field_value ?s = [cpu_trigger, memory_trigger]"
    by (simp add: edit_onClick_def initial_config_def)
  have held: "{v. JStr v \<in> ttype ` set (field_value ?s)} = {''cpu'', ''memory''}"
    unfolding v by (auto simp: cpu_trigger_def memory_trigger_def)
  have own: "{v. ttype cpu_trigger = JStr v} = {''cpu''}"
    by (auto simp: cpu_trigger_def)
  have e: "(ovalue ` set typeOptions - {v. JStr v \<in> ttype ` set (field_value ?s)})
              \<union> (ovalue ` set typeOptions \<inter> {v. ttype cpu_trigger = JStr v}) = {''cpu'', ''cron''}"
    unfolding held own ovalue_typeOptions by auto
  from C3_type_options [of ?s cpu_trigger, THEN conjunct1, rule_format, OF vis c] obtain opts where
    "options_effect ?s = Options opts"
    "ovalue ` set opts = (ovalue ` set typeOptions - {v. JStr v \<in> ttype ` set (field_value ?s)})
              \<union> (ovalue ` set typeOptions \<inter> {v. ttype cpu_trigger = JStr v})"
    by blast
  then show ?thesis unfolding e by blast
qed

subsection \<open>One trigger of each type\<close>

lemma currentTypes_append: "currentTypes (xs @ ys) = currentTypes xs @ currentTypes ys"
  by (simp add: currentTypes_filter)

lemma currentTypes_Cons:
  "currentTypes (x # xs) = (if truthy (ttype x) then ttype x # currentTypes xs else currentTypes xs)"
  by (simp add: currentTypes_filter)

lemma one_per_type_drop_middle:
  assumes "one_per_type (xs @ y # ys)"
  shows "one_per_type (xs @ ys)"
  using assms by (auto simp: one_per_type_def currentTypes_append currentTypes_Cons split: if_splits)

lemma array_remove_cases:
  "array_remove index xs = xs
   \<or> (\<exists>n < length xs. array_remove index xs = take n xs @ drop (Suc n) xs)"
proof -
  let ?len = "int (length xs)"
  let ?start = "if index < 0 then max (?len + index) 0 else min index ?len"
  have r: "array_remove index xs = take (nat ?start) xs @ drop (Suc (nat ?start)) xs"
    by (simp add: array_remove_def Let_def)
  show ?thesis
  proof (cases "nat ?start < length xs")
    case True
    then show ?thesis using r by blast
  next
    case False
    then have "take (nat ?start) xs @ drop (Suc (nat ?start)) xs = xs" by simp
    then show ?thesis using r by simp
  qed
qed

lemma one_per_type_array_remove:
  assumes "one_per_type xs"
  shows "one_per_type (array_remove index xs)"
proof -
  from array_remove_cases [of index xs] show ?thesis
  proof
    assume "array_remove index xs = xs"
    then show ?thesis using assms by simp
  next
    assume "\<exists>n < length xs. array_remove index xs = take n xs @ drop (Suc n) xs"
    then obtain n where n: "n < length xs"
      and r: "array_remove index xs = take n xs @ drop (Suc n) xs" by blast
    have "one_per_type (take n xs @ xs ! n # drop (Suc n) xs)"
      using assms id_take_nth_drop [OF n] by simp
    then show ?thesis unfolding r by (rule one_per_type_drop_middle)
  qed
qed

lemma one_per_type_append_empty: "one_per_type (ts @ [empty_trigger]) = one_per_type ts"
  by (simp add: one_per_type_def currentTypes_append currentTypes_Cons empty_trigger_def
      currentTypes_filter)

lemma one_per_type_update_metadata:
  assumes "one_per_type ts" and "n < length ts"
  shows "one_per_type (ts[n := (ts ! n)\<lparr>metadata := m\<rparr>])"
proof -
  have "map ttype (ts[n := (ts ! n)\<lparr>metadata := m\<rparr>]) = map ttype ts"
    using assms(2) by (simp add: map_update list_update_same_conv)
  then show ?thesis using assms(1) by (simp add: one_per_type_def currentTypes_filter)
qed

lemma typeOptions_known: "opt \<in> set typeOptions \<Longrightarrow> JStr (ovalue opt) \<in> known_types"
  by (auto simp: typeOptions_def known_types_def)

lemma one_per_type_update_type:
  assumes inv: "one_per_type ts" and n: "n < length ts"
    and known: "v \<in> known_types"
    and free: "v \<notin> set (currentTypes ts) \<or> ttype (ts ! n) = v"
  shows "one_per_type (ts[n := (ts ! n)\<lparr>ttype := v\<rparr>])"
proof -
  let ?A = "take n ts" and ?B = "drop (Suc n) ts"
  have ts: "ts = ?A @ ts ! n # ?B" using id_take_nth_drop [OF n] .
  have upd: "ts[n := (ts ! n)\<lparr>ttype := v\<rparr>] = ?A @ (ts ! n)\<lparr>ttype := v\<rparr> # ?B"
    using upd_conv_take_nth_drop [OF n] .
  have tv: "truthy v" using known by (auto simp: known_types_def)
  have d: "distinct (currentTypes ?A @ currentTypes (ts ! n # ?B))"
    and sub: "set (currentTypes ?A @ currentTypes (ts ! n # ?B)) \<subseteq> known_types"
    using inv ts by (simp_all add: one_per_type_def flip: currentTypes_append)
  have fr: "v \<notin> set (currentTypes ?A @ currentTypes (ts ! n # ?B)) \<or> ttype (ts ! n) = v"
    using free ts by (simp flip: currentTypes_append)
  have "distinct (currentTypes ?A @ v # currentTypes ?B)"
    using d fr tv by (auto simp: currentTypes_Cons split: if_splits)
  moreover have "set (currentTypes ?A @ v # currentTypes ?B) \<subseteq> known_types"
    using sub known by (auto simp: currentTypes_Cons split: if_splits)
  ultimately show ?thesis
    unfolding upd by (simp add: one_per_type_def currentTypes_append currentTypes_Cons tv)
qed

lemma perform_invariant:
  assumes "perform a s = Some s'" and "protocol_invariant s"
  shows "protocol_invariant s'"
proof (cases a)
  case Add
  then show ?thesis
    using assms
    by (auto simp: protocol_invariant_def onAddRule_def Let_def one_per_type_append_empty
        split: if_splits)
next
  case (Edit index)
  then show ?thesis
    using assms by (auto simp: protocol_invariant_def edit_onClick_def split: if_splits)
next
  case (Delete index)
  then show ?thesis
    using assms
    by (auto simp: protocol_invariant_def delete_onClick_def one_per_type_array_remove
        split: if_splits)
next
  case (SelectType opt)
  from assms(1) obtain t opts where cur: "current_trigger s = Some t"
    and eff: "options_effect s = Options opts" and mem: "opt \<in> set opts"
    and s': "s' = modal_input (t\<lparr>ttype := JStr (ovalue opt)\<rparr>) s"
    unfolding SelectType
    by (auto split: option.splits effect_result.splits if_splits)
  note r = current_trigger_in_range [OF cur]
  let ?n = "nat (currentIndex s)"
  have n: "?n < length (field_value s)" and t: "t = field_value s ! ?n" using r by simp_all
  have o: "opt \<in> set typeOptions"
    "JStr (ovalue opt) \<notin> set (currentTypes (field_value s)) \<or> ttype t = JStr (ovalue opt)"
    using eff mem
    by (auto simp: options_effect_def type_options_def currentTypeField_def cur isField_def
        split: if_splits)
  have "one_per_type ((field_value s)[?n := (field_value s ! ?n)\<lparr>ttype := JStr (ovalue opt)\<rparr>])"
    using one_per_type_update_type [OF _ n typeOptions_known [OF o(1)]] o(2) assms(2)
    by (simp add: protocol_invariant_def t)
  then show ?thesis
    using assms(2) by (simp add: s' protocol_invariant_def modal_input_def cur t)
next
  case (EditMetadata m)
  from assms(1) obtain t where cur: "current_trigger s = Some t"
    and s': "s' = modal_input (t\<lparr>metadata := m\<rparr>) s"
    unfolding EditMetadata by (auto split: option.splits if_splits)
  note r = current_trigger_in_range [OF cur]
  let ?n = "nat (currentIndex s)"
  have n: "?n < length (field_value s)" and t: "t = field_value s ! ?n" using r by simp_all
  have "one_per_type ((field_value s)[?n := (field_value s ! ?n)\<lparr>metadata := m\<rparr>])"
    using one_per_type_update_metadata [OF _ n] assms(2)
    by (simp add: protocol_invariant_def)
  then show ?thesis
    using assms(2) by (simp add: s' protocol_invariant_def modal_input_def cur t)
next
  case (Ok valid)
  then show ?thesis
    using assms by (auto simp: protocol_invariant_def onOk_def split: if_splits)
next
  case Cancel
  then show ?thesis
    using assms
    by (auto simp: protocol_invariant_def onClose_def one_per_type_array_remove
        split: if_splits option.splits)
qed

lemma run_invariant:
  "run acts s = Some s' \<Longrightarrow> protocol_invariant s \<Longrightarrow> protocol_invariant s'"
proof (induction acts arbitrary: s)
  case Nil
  then show ?case by simp
next
  case (Cons a acts)
  then show ?case
    by (auto split: option.splits dest: perform_invariant)
qed

lemma card_known_types: "card known_types = 3"
  by (simp add: known_types_def)

lemma one_per_type_bounds:
  assumes "one_per_type ts"
  shows "(\<forall>v. truthy v \<longrightarrow> length (filter (\<lambda>t. ttype t = v) ts) \<le> 1)
         \<and> length (filter (\<lambda>t. truthy (ttype t)) ts) \<le> 3"
proof
  have d: "distinct (currentTypes ts)" and sub: "set (currentTypes ts) \<subseteq> known_types"
    using assms by (simp_all add: one_per_type_def)
  show "\<forall>v. truthy v \<longrightarrow> length (filter (\<lambda>t. ttype t = v) ts) \<le> 1"
  proof (intro allI impI)
    fix v assume v: "truthy v"
    have "length (filter (\<lambda>t. ttype t = v) ts) = length (filter (\<lambda>x. x = v) (currentTypes ts))"
    proof -
      have "filter (\<lambda>x. x = v) (currentTypes ts) = map ttype (filter (\<lambda>t. ttype t = v) ts)"
        using v by (induction ts) (auto simp: currentTypes_Cons currentTypes_filter)
      then show ?thesis by simp
    qed
    also have "\<dots> = card ({x. x = v} \<inter> set (currentTypes ts))"
      using distinct_length_filter [OF d] by simp
    also have "\<dots> \<le> card {v}"
      by (rule card_mono) auto
    finally show "length (filter (\<lambda>t. ttype t = v) ts) \<le> 1" by simp
  qed
  have "length (filter (\<lambda>t. truthy (ttype t)) ts) = length (currentTypes ts)"
    by (simp add: currentTypes_filter filter_map comp_def)
  also have "\<dots> = card (set (currentTypes ts))"
    using distinct_card [OF d] by simp
  also have "\<dots> \<le> card known_types"
  proof (rule card_mono)
    show "finite known_types" by (simp add: known_types_def)
    show "set (currentTypes ts) \<subseteq> known_types" by (rule sub)
  qed
  finally show "length (filter (\<lambda>t. truthy (ttype t)) ts) \<le> 3"
    by (simp add: card_known_types)
qed

text \<open>
  Claim C4. In every state of the trigger form that the add/edit protocol reaches (the
  offered types filtered as above, the add button disabled when three typed triggers
  exist) from a triggers value with one trigger of each type at most, the triggers value
  holds at most one trigger of each type, and at most three typed triggers.
\<close>

theorem C4_at_most_one_trigger_per_type:
  assumes "one_per_type ts" and "run acts (initial_config ts) = Some s"
  shows "(\<forall>v. truthy v \<longrightarrow> length (filter (\<lambda>t. ttype t = v) (field_value s)) \<le> 1)
         \<and> length (filter (\<lambda>t. truthy (ttype t)) (field_value s)) \<le> 3"
proof -
  have "protocol_invariant (initial_config ts)"
    using assms(1) by (simp add: protocol_invariant_def initial_config_def)
  from run_invariant [OF assms(2) this] have "one_per_type (field_value s)"
    by (simp add: protocol_invariant_def)
  then show ?thesis by (rule one_per_type_bounds)
qed

lemma run_add_memory:
  "run add_memory (initial_config [cpu_trigger])
     = Some \<lparr>field_value = [cpu_trigger, empty_trigger\<lparr>ttype := JStr ''memory''\<rparr>],
             visible = False, previousValue = None, isEditing = False, currentIndex = 1\<rparr>"
proof -
  let ?s0 = "initial_config [cpu_trigger]"
  let ?s1 = "\<lparr>field_value = [cpu_trigger, empty_trigger], visible = True, previousValue = None,
              isEditing = False, currentIndex = 1\<rparr>"
  let ?s2 = "?s1\<lparr>field_value := [cpu_trigger, empty_trigger\<lparr>ttype := JStr ''memory''\<rparr>]\<rparr>"
  have ct: "currentTypes [cpu_trigger] = [JStr ''cpu'']"
    "currentTypes [cpu_trigger, empty_trigger] = [JStr ''cpu'']"
    by (simp_all add: currentTypes_filter cpu_trigger_def empty_trigger_def)
  have 1: "perform Add ?s0 = Some ?s1"
    by (simp add: initial_config_def btnDisabled_def ct onAddRule_def Let_def)
  have c: "current_trigger ?s1 = Some empty_trigger"
    by (simp add: current_trigger_def)
  have te: "ttype empty_trigger = JUndefined"
    by (simp add: empty_trigger_def)
  have o: "options_effect ?s1
             = Options [\<lparr>ovalue = ''memory'', olabel = ''memory''\<rparr>, \<lparr>ovalue = ''cron'', olabel = ''Cron''\<rparr>]"
    by (simp add: options_effect_def ct type_options_def currentTypeField_def c isField_def
        typeOptions_def te)
  have 2: "perform (SelectType \<lparr>ovalue = ''memory'', olabel = ''memory''\<rparr>) ?s1 = Some ?s2"
    by (simp add: c o modal_input_def)
  have 3: "perform (Ok True) ?s2 = Some (?s2\<lparr>visible := False\<rparr>)"
    by (simp add: onOk_def)
  have 4: "?s2\<lparr>visible := False\<rparr>
             = \<lparr>field_value = [cpu_trigger, empty_trigger\<lparr>ttype := JStr ''memory''\<rparr>],
                visible = False, previousValue = None, isEditing = False, currentIndex = 1\<rparr>"
    by simp
  show ?thesis
    unfolding add_memory_def by (simp only: run.simps 1 2 3 4 option.case)
qed

theorem C4_witness:
  "run add_memory (initial_config [cpu_trigger])
     = Some \<lparr>field_value = [cpu_trigger, empty_trigger\<lparr>ttype := JStr ''memory''\<rparr>],
             visible = False, previousValue = None, isEditing = False, currentIndex = 1\<rparr>
   \<and> length (filter (\<lambda>t. ttype t = JStr ''memory'')
               [cpu_trigger, empty_trigger\<lparr>ttype := JStr ''memory''\<rparr>]) \<le> 1
   \<and> length (filter (\<lambda>t. truthy (ttype t))
               [cpu_trigger, empty_trigger\<lparr>ttype := JStr ''memory''\<rparr>]) \<le> 3"
proof -
  have w: "one_per_type [cpu_trigger]"
    by (simp add: one_per_type_def currentTypes_filter cpu_trigger_def known_types_def)
  show ?thesis
    using C4_at_most_one_trigger_per_type [OF w run_add_memory] run_add_memory
    by simp
qed

subsection \<open>Submission\<close>

text \<open>
  Claim C6. On submit, for every form state that passes validation, the \<open>scaledConfig\<close>
  handed to \<open>createScaledRules\<close> or \<open>updateScaledRules\<close> holds exactly the triggers of
  the form value whose type is truthy, in their order; the replica counts are passed on
  as they are.
\<close>

theorem C6_submit_filters_untyped_triggers:
  assumes "validated = Resolved"
  shows "\<exists>c. onSubmit validated scaledRules runtimeId serviceName form_values = [c, DrawerClose]
           \<and> is_backend_call c
           \<and> map_option triggers (submitted_config c)
               = Some (filter (\<lambda>t. truthy (ttype t)) (triggers form_values))
           \<and> map_option minReplicaCount (submitted_config c) = Some (minReplicaCount form_values)
           \<and> map_option maxReplicaCount (submitted_config c) = Some (maxReplicaCount form_values)"
  using assms
  by (simp add: onSubmit_def Let_def is_backend_call_def submitted_config_def)

theorem C6_witness:
  "onSubmit Resolved None (Fin 7) ''web'' two_triggers_form
     = [CreateScaledRules (Fin 7) ''web'' (two_triggers_form\<lparr>triggers := [cpu_trigger]\<rparr>),
        DrawerClose]"
proof -
  from C6_submit_filters_untyped_triggers [of Resolved None "Fin 7" "''web''" two_triggers_form]
  obtain c where c: "onSubmit Resolved None (Fin 7) ''web'' two_triggers_form = [c, DrawerClose]"
    and t: "map_option triggers (submitted_config c)
              = Some (filter (\<lambda>t. truthy (ttype t)) (triggers two_triggers_form))"
    by blast
  have f: "filter (\<lambda>t. truthy (ttype t)) (triggers two_triggers_form) = [cpu_trigger]"
    by (simp add: two_triggers_form_def cpu_trigger_def empty_trigger_def)
  have "c = CreateScaledRules (Fin 7) ''web'' (two_triggers_form\<lparr>triggers := [cpu_trigger]\<rparr>)"
    using c by (simp add: onSubmit_def Let_def drawer_isEditing_def f)
  then show ?thesis using c by simp
qed

text \<open>
  Claim C7 as stated fails: with a fetched rule that has no trigger, the drawer still
  calls \<open>updateScaledRules\<close> with the identifier of that rule.
\<close>

theorem C7_counterexample:
  "onSubmit Resolved fetched_empty_rule (Fin 7) ''web'' one_trigger_form
     = [UpdateScaledRules (Fin 7) (Some ''r1'') one_trigger_form,
        DrawerClose]
   \<and> \<not> spec_fetched_rule_has_trigger fetched_empty_rule"
  by (simp add: onSubmit_def Let_def drawer_isEditing_def first_ruleId_def fetched_empty_rule_def
      spec_fetched_rule_has_trigger_def one_trigger_form_def cpu_trigger_def)

text \<open>
  Claim C7, amended. The drawer submits in editing mode, calling \<open>updateScaledRules\<close>
  with the identifier of the first fetched rule, exactly when the fetched list of rules
  is not empty, whatever the triggers of that rule; otherwise (nothing fetched, or an
  empty list of rules) it calls \<open>createScaledRules\<close>.
\<close>

theorem C7_update_iff_rule_fetched:
  "(drawer_isEditing scaledRules \<longleftrightarrow> (\<exists>sr r rs. scaledRules = Some sr \<and> rules sr = r # rs))
   \<and> (\<forall>sr r rs. scaledRules = Some sr \<longrightarrow> rules sr = r # rs \<longrightarrow>
         onSubmit Resolved scaledRules runtimeId serviceName form_values
           = [UpdateScaledRules runtimeId (Some (ruleId r))
                (form_values\<lparr>triggers := filter (\<lambda>t. truthy (ttype t)) (triggers form_values)\<rparr>),
              DrawerClose])
   \<and> (\<not> drawer_isEditing scaledRules \<longrightarrow>
         onSubmit Resolved scaledRules runtimeId serviceName form_values
           = [CreateScaledRules runtimeId serviceName
                (form_values\<lparr>triggers := filter (\<lambda>t. truthy (ttype t)) (triggers form_values)\<rparr>),
              DrawerClose])"
proof (intro conjI allI impI)
  show "drawer_isEditing scaledRules \<longleftrightarrow> (\<exists>sr r rs. scaledRules = Some sr \<and> rules sr = r # rs)"
    by (cases scaledRules) (auto simp: drawer_isEditing_def neq_Nil_conv)
next
  fix sr r rs assume "scaledRules = Some sr" "rules sr = r # rs"
  then show "onSubmit Resolved scaledRules runtimeId serviceName form_values
           = [UpdateScaledRules runtimeId (Some (ruleId r))
                (form_values\<lparr>triggers := filter (\<lambda>t. truthy (ttype t)) (triggers form_values)\<rparr>),
              DrawerClose]"
    by (simp add: onSubmit_def Let_def drawer_isEditing_def first_ruleId_def)
next
  assume "\<not> drawer_isEditing scaledRules"
  then show "onSubmit Resolved scaledRules runtimeId serviceName form_values
           = [CreateScaledRules runtimeId serviceName
                (form_values\<lparr>triggers := filter (\<lambda>t. truthy (ttype t)) (triggers form_values)\<rparr>),
              DrawerClose]"
    by (simp add: onSubmit_def Let_def)
qed

theorem C7_witness:
  "onSubmit Resolved fetched_empty_rule (Fin 7) ''web'' one_trigger_form
     = [UpdateScaledRules (Fin 7) (Some ''r1'') one_trigger_form,
        DrawerClose]
   \<and> onSubmit Resolved None (Fin 7) ''web'' one_trigger_form
     = [CreateScaledRules (Fin 7) ''web'' one_trigger_form,
        DrawerClose]
   \<and> onSubmit Resolved (Some \<lparr>rules = []\<rparr>) (Fin 7) ''web'' one_trigger_form
     = [CreateScaledRules (Fin 7) ''web'' one_trigger_form,
        DrawerClose]"
proof -
  have f: "one_trigger_form\<lparr>triggers := filter (\<lambda>t. truthy (ttype t)) (triggers one_trigger_form)\<rparr>
             = one_trigger_form"
    by (simp add: one_trigger_form_def cpu_trigger_def)
  have e: "\<not> drawer_isEditing None" "\<not> drawer_isEditing (Some \<lparr>rules = []\<rparr>)"
    by (simp_all add: drawer_isEditing_def)
  show ?thesis
    using C7_update_iff_rule_fetched [of fetched_empty_rule "Fin 7" "''web''" one_trigger_form,
        THEN conjunct2, THEN conjunct1, rule_format,
        of "\<lparr>rules = [\<lparr>ruleId = ''r1'', isApplied = ''N'',
                       scaledConfig = \<lparr>triggers = [], minReplicaCount = JNum (Fin 1),
                                        maxReplicaCount = JNum (Fin 2)\<rparr>\<rparr>]\<rparr>"
           "\<lparr>ruleId = ''r1'', isApplied = ''N'',
                       scaledConfig = \<lparr>triggers = [], minReplicaCount = JNum (Fin 1),
                                        maxReplicaCount = JNum (Fin 2)\<rparr>\<rparr>" "[]"]
      C7_update_iff_rule_fetched [of None "Fin 7" "''web''" one_trigger_form,
        THEN conjunct2, THEN conjunct2, rule_format, OF e(1)]
      C7_update_iff_rule_fetched [of "Some \<lparr>rules = []\<rparr>" "Fin 7" "''web''" one_trigger_form,
        THEN conjunct2, THEN conjunct2, rule_format, OF e(2)]
    by (simp add: f fetched_empty_rule_def)
qed

subsection \<open>Validation before submission\<close>

lemma value_validator_iff:
  "value_validator parse v \<longleftrightarrow> (\<exists>r. to_number parse v = Fin r \<and> 0 < r \<and> r < 100)"
  by (cases "to_number parse v") (simp_all add: value_validator_def)

lemma schema_row_value:
  "schema_row i (metadata_values t) (metadata_field i ''value'')
     = Some \<lparr>display = DNone, fvalue = trigger_value t, is_void = False\<rparr>"
  by (simp add: schema_row_def metadata_values_def metadata_names_def trigger_value_def
      numeral_eq_Suc split: option.splits)

lemma trigger_row_value_visible:
  assumes "ttype t = JStr ''cpu'' \<or> ttype t = JStr ''memory''"
  shows "trigger_row i t (metadata_field i ''value'')
           = Some \<lparr>display = Visible, fvalue = trigger_value t, is_void = False\<rparr>"
proof -
  let ?f = "\<lparr>display = Visible, fvalue = ttype t, is_void = False\<rparr>"
  have "\<not> is_void ?f" "truthy (fvalue ?f)" "fvalue ?f \<noteq> JStr ''cron''"
    using assms by auto
  note r = type_react_utilization [OF this]
  show ?thesis
    by (simp add: trigger_row_def r setDisplay_apply setValue_if_field_apply schema_row_value)
qed

lemma value_rules_message: "\<not> value_validator parse v \<Longrightarrow> value_message \<in> set (value_rules parse v)"
  by (simp add: value_rules_def)

lemma trigger_feedback_value:
  assumes "ttype t = JStr ''cpu'' \<or> ttype t = JStr ''memory''"
    and "\<not> value_validator parse (trigger_value t)"
  shows "\<lparr>fb_address = metadata_field i ''value'',
          messages = Some (value_rules parse (trigger_value t))\<rparr> \<in> set (trigger_feedback parse i t)"
proof -
  have "value_rules parse (trigger_value t) \<noteq> []"
    using value_rules_message [OF assms(2)] by auto
  then have "validate_visible (trigger_row i t) (metadata_field i ''value'') (value_rules parse)
      = [\<lparr>fb_address = metadata_field i ''value'',
          messages = Some (value_rules parse (trigger_value t))\<rparr>]"
    by (simp add: validate_visible_def trigger_row_value_visible [OF assms(1)] field_feedback_def)
  then show ?thesis by (simp add: trigger_feedback_def)
qed

lemma trigger_feedback_in_form:
  assumes "i < length (triggers vals)" and "e \<in> set (trigger_feedback parse i (triggers vals ! i))"
  shows "e \<in> set (form_feedback parse vals)"
proof -
  have "(i, triggers vals ! i) \<in> set (enumerate 0 (triggers vals))"
    using assms(1) by (simp add: in_set_enumerate_eq)
  then have "e \<in> set (concat (map (\<lambda>(i, t). trigger_feedback parse i t) (enumerate 0 (triggers vals))))"
    using assms(2) by (auto intro!: bexI [of _ "(i, triggers vals ! i)"])
  then show ?thesis by (simp add: form_feedback_def)
qed

lemma onSubmit_rejected:
  "onSubmit (Rejected errs) scaledRules runtimeId serviceName vals
     = map (\<lambda>err. MessageError (map_option (join '', '') (messages err))) errs"
  by (simp add: onSubmit_def)

lemma no_backend_call_in_messages:
  "\<not> list_ex is_backend_call (map (\<lambda>err. MessageError (f err)) errs)"
  by (induction errs) (simp_all add: is_backend_call_def)

text \<open>
  Claim C9. The validator of the percentage field accepts a value exactly when the value,
  read as a number, is strictly greater than 0 and strictly less than 100. When the
  percentage of a \<open>cpu\<close> or \<open>memory\<close> trigger is outside this range, validation rejects
  with a feedback entry for that field carrying the message of the validator, the
  submission shows the messages and makes no call to the backend.
\<close>

theorem C9_percentage_validation:
  "(value_validator parse v \<longleftrightarrow> (\<exists>r. to_number parse v = Fin r \<and> 0 < r \<and> r < 100))
   \<and> (\<forall>i. i < length (triggers vals) \<longrightarrow>
         (ttype (triggers vals ! i) = JStr ''cpu'' \<or> ttype (triggers vals ! i) = JStr ''memory'') \<longrightarrow>
         \<not> value_validator parse (trigger_value (triggers vals ! i)) \<longrightarrow>
         (\<exists>errs. form_validate parse vals = Rejected errs
            \<and> (\<exists>e \<in> set errs. \<exists>ms. fb_address e = metadata_field i ''value'' \<and> messages e = Some ms
                   \<and> value_message \<in> set ms)
            \<and> onSubmit (form_validate parse vals) scaledRules runtimeId serviceName vals
                = map (\<lambda>err. MessageError (map_option (join '', '') (messages err))) errs
            \<and> errs \<noteq> []
            \<and> \<not> list_ex is_backend_call
                  (onSubmit (form_validate parse vals) scaledRules runtimeId serviceName vals)))"
proof (intro conjI allI impI)
  show "value_validator parse v \<longleftrightarrow> (\<exists>r. to_number parse v = Fin r \<and> 0 < r \<and> r < 100)"
    by (rule value_validator_iff)
next
  fix i
  let ?t = "triggers vals ! i"
  let ?e = "\<lparr>fb_address = metadata_field i ''value'',
             messages = Some (value_rules parse (trigger_value ?t))\<rparr>"
  let ?errs = "form_feedback parse vals"
  assume i: "i < length (triggers vals)"
    and ty: "ttype ?t = JStr ''cpu'' \<or> ttype ?t = JStr ''memory''"
    and bad: "\<not> value_validator parse (trigger_value ?t)"
  have e: "?e \<in> set ?errs"
    using trigger_feedback_in_form [OF i trigger_feedback_value [OF ty bad]] .
  then have ne: "?errs \<noteq> []" by auto
  then have rej: "form_validate parse vals = Rejected ?errs"
    by (simp add: form_validate_def)
  have msg: "\<exists>e \<in> set ?errs. \<exists>ms. fb_address e = metadata_field i ''value'' \<and> messages e = Some ms
                   \<and> value_message \<in> set ms"
    using e value_rules_message [OF bad] by (intro bexI [of _ ?e]) simp_all
  show "\<exists>errs. form_validate parse vals = Rejected errs
            \<and> (\<exists>e \<in> set errs. \<exists>ms. fb_address e = metadata_field i ''value'' \<and> messages e = Some ms
                   \<and> value_message \<in> set ms)
            \<and> onSubmit (form_validate parse vals) scaledRules runtimeId serviceName vals
                = map (\<lambda>err. MessageError (map_option (join '', '') (messages err))) errs
            \<and> errs \<noteq> []
            \<and> \<not> list_ex is_backend_call
                  (onSubmit (form_validate parse vals) scaledRules runtimeId serviceName vals)"
    using rej msg ne
    by (intro exI [of _ ?errs]) (simp add: onSubmit_rejected no_backend_call_in_messages)
qed

lemma to_number_examples:
  "string_to_number parse ''50'' = Fin 50" "string_to_number parse ''150'' = Fin 150"
  "string_to_number parse ''0'' = Fin 0" "string_to_number parse ''100'' = Fin 100"
  by (simp_all add: string_to_number_def is_digit_def digits_val_def digit_val_def)

lemma trigger_row_unchanged:
  assumes "ttype t = JStr ''cpu'' \<or> ttype t = JStr ''memory''"
  shows "map_option display (trigger_row i t (metadata_field i ''start'')) = Some DNone"
    and "map_option display (trigger_row i t (metadata_field i ''end'')) = Some DNone"
    and "map_option display (trigger_row i t (metadata_field i ''desiredReplicas'')) = Some DNone"
proof -
  let ?f = "\<lparr>display = Visible, fvalue = ttype t, is_void = False\<rparr>"
  let ?g = "schema_row i (metadata_values t)"
  have "\<not> is_void ?f" "truthy (fvalue ?f)" "fvalue ?f \<noteq> JStr ''cron''"
    using assms(1) by auto
  note r = type_react_utilization [OF this]
  have m: "row_mounted ?g i"
    by (rule row_mounted_schema_row) (simp add: metadata_values_def split: option.splits)
  have n: "''start'' \<in> set metadata_names" "''end'' \<in> set metadata_names"
    "''desiredReplicas'' \<in> set metadata_names"
    by (simp_all add: metadata_names_def)
  from n [THEN row_mounted_field [OF m]] obtain f1 f2 f3 where
    g: "?g (metadata_field i ''start'') = Some f1" "?g (metadata_field i ''end'') = Some f2"
       "?g (metadata_field i ''desiredReplicas'') = Some f3"
    by blast
  show "map_option display (trigger_row i t (metadata_field i ''start'')) = Some DNone"
    by (simp add: trigger_row_def r setDisplay_apply setValue_if_field_apply g)
  show "map_option display (trigger_row i t (metadata_field i ''end'')) = Some DNone"
    by (simp add: trigger_row_def r setDisplay_apply setValue_if_field_apply g)
  show "map_option display (trigger_row i t (metadata_field i ''desiredReplicas'')) = Some DNone"
    by (simp add: trigger_row_def r setDisplay_apply setValue_if_field_apply g)
qed

lemma validate_visible_hidden:
  "map_option display (g a) = Some DNone \<Longrightarrow> validate_visible g a field_rules = []"
  by (auto simp: validate_visible_def split: option.splits)

lemma utilization_trigger_feedback:
  assumes "ttype t = JStr ''cpu'' \<or> ttype t = JStr ''memory''"
  shows "trigger_feedback parse i t
           = field_feedback (metadata_field i ''value'') (value_rules parse (trigger_value t))"
proof -
  have "required_rule default_required_message (ttype t) = []"
    using assms by (auto simp: required_rule_def is_empty_def)
  moreover have "validate_visible (trigger_row i t) (metadata_field i ''start'')
                   (required_rule default_required_message) = []"
    "validate_visible (trigger_row i t) (metadata_field i ''end'')
                   (required_rule default_required_message) = []"
    "validate_visible (trigger_row i t) (metadata_field i ''desiredReplicas'')
                   (required_rule default_required_message) = []"
    using assms by (simp_all add: validate_visible_hidden trigger_row_unchanged)
  moreover have "validate_visible (trigger_row i t) (metadata_field i ''value'') (value_rules parse)
                   = field_feedback (metadata_field i ''value'') (value_rules parse (trigger_value t))"
    by (simp add: validate_visible_def trigger_row_value_visible [OF assms])
  ultimately show ?thesis
    by (simp add: trigger_feedback_def field_feedback_def)
qed

theorem C9_witness:
  "value_validator (\<lambda>s. NaN) (JStr ''50'')
   \<and> \<not> value_validator (\<lambda>s. NaN) (JStr ''150'')
   \<and> \<not> value_validator (\<lambda>s. NaN) (JStr ''0'')
   \<and> \<not> value_validator (\<lambda>s. NaN) (JStr ''100'')
   \<and> onSubmit (form_validate (\<lambda>s. NaN) out_of_range_form) None (Fin 7) ''web'' out_of_range_form
       = [MessageError (Some value_message)]
   \<and> \<not> list_ex is_backend_call
         (onSubmit (form_validate (\<lambda>s. NaN) out_of_range_form) None (Fin 7) ''web'' out_of_range_form)"
proof -
  let ?p = "\<lambda>s::string. NaN"
  note iff = C9_percentage_validation [of ?p _ out_of_range_form None "Fin 7" "''web''", THEN conjunct1]
  have v: "value_validator ?p (JStr ''50'')" "\<not> value_validator ?p (JStr ''150'')"
    "\<not> value_validator ?p (JStr ''0'')" "\<not> value_validator ?p (JStr ''100'')"
    unfolding iff by (simp_all add: to_number_examples)
  have t: "triggers out_of_range_form ! 0 = memory_trigger" "0 < length (triggers out_of_range_form)"
    by (simp_all add: out_of_range_form_def)
  have ty: "ttype memory_trigger = JStr ''cpu'' \<or> ttype memory_trigger = JStr ''memory''"
    and tv: "trigger_value memory_trigger = JStr ''150''"
    by (simp_all add: memory_trigger_def trigger_value_def)
  have h: "ttype (triggers out_of_range_form ! 0) = JStr ''cpu''
            \<or> ttype (triggers out_of_range_form ! 0) = JStr ''memory''"
    "\<not> value_validator ?p (trigger_value (triggers out_of_range_form ! 0))"
    unfolding t tv by (rule ty, rule v(2))
  have blocked: "\<not> list_ex is_backend_call
         (onSubmit (form_validate ?p out_of_range_form) None (Fin 7) ''web'' out_of_range_form)"
    using C9_percentage_validation [of ?p "JStr ''150''" out_of_range_form None "Fin 7" "''web''",
        THEN conjunct2, rule_format, OF t(2) h]
    by blast
  have fb: "form_feedback ?p out_of_range_form
              = [\<lparr>fb_address = metadata_field 0 ''value'', messages = Some [value_message]\<rparr>]"
    using v(2)
    by (simp add: form_feedback_def out_of_range_form_def enumerate_eq_zip
        utilization_trigger_feedback [OF ty] tv value_rules_def required_rule_def is_empty_def
        field_feedback_def)
  have "onSubmit (form_validate ?p out_of_range_form) None (Fin 7) ''web'' out_of_range_form
       = [MessageError (Some value_message)]"
    by (simp add: form_validate_def fb onSubmit_rejected)
  with v blocked show ?thesis by blast
qed

lemma form_feedback_valid:
  assumes "triggers_valid parse ts" and "\<not> is_empty mn" and "\<not> is_empty mx"
  shows "form_feedback parse \<lparr>triggers = ts, minReplicaCount = mn, maxReplicaCount = mx\<rparr> = []"
proof -
  have "ts \<noteq> []" and "\<forall>p \<in> set (enumerate 0 ts). (case p of (i, t) \<Rightarrow> trigger_feedback parse i t) = []"
    using assms(1) by (auto simp: triggers_valid_def list_all_iff)
  then show ?thesis
    using assms(2,3) by (simp add: form_feedback_def field_feedback_def required_rule_def)
qed

text \<open>
  Claim C10. Validation relates \<open>minReplicaCount\<close> and \<open>maxReplicaCount\<close> in no way:
  when every trigger field is valid on its own, any two replica counts that are present
  pass, and a submission with \<open>minReplicaCount = 5\<close> and \<open>maxReplicaCount = 2\<close> is
  resolved and makes the backend call with these two counts.
\<close>

theorem C10_no_cross_field_validation:
  assumes "triggers_valid parse ts"
  shows "(\<forall>mn mx. \<not> is_empty mn \<longrightarrow> \<not> is_empty mx \<longrightarrow>
            form_validate parse \<lparr>triggers = ts, minReplicaCount = mn, maxReplicaCount = mx\<rparr> = Resolved)
       \<and> form_validate parse
            \<lparr>triggers = ts, minReplicaCount = JNum (Fin 5), maxReplicaCount = JNum (Fin 2)\<rparr> = Resolved
       \<and> (\<exists>c. onSubmit
                 (form_validate parse
                    \<lparr>triggers = ts, minReplicaCount = JNum (Fin 5), maxReplicaCount = JNum (Fin 2)\<rparr>)
                 scaledRules runtimeId serviceName
                 \<lparr>triggers = ts, minReplicaCount = JNum (Fin 5), maxReplicaCount = JNum (Fin 2)\<rparr>
               = [c, DrawerClose]
             \<and> is_backend_call c
             \<and> map_option minReplicaCount (submitted_config c) = Some (JNum (Fin 5))
             \<and> map_option maxReplicaCount (submitted_config c) = Some (JNum (Fin 2)))"
proof -
  have 1: "\<forall>mn mx. \<not> is_empty mn \<longrightarrow> \<not> is_empty mx \<longrightarrow>
            form_validate parse \<lparr>triggers = ts, minReplicaCount = mn, maxReplicaCount = mx\<rparr> = Resolved"
    using form_feedback_valid [OF assms] by (simp add: form_validate_def)
  have ne: "\<not> is_empty (JNum (Fin 5))" "\<not> is_empty (JNum (Fin 2))"
    by (simp_all add: is_empty_def)
  have 2: "form_validate parse
            \<lparr>triggers = ts, minReplicaCount = JNum (Fin 5), maxReplicaCount = JNum (Fin 2)\<rparr> = Resolved"
    using 1 ne by blast
  show ?thesis
    using 1 2
    by (simp add: onSubmit_def Let_def is_backend_call_def submitted_config_def)
qed

theorem C10_witness:
  "triggers_valid (\<lambda>s. NaN) [cpu_trigger]
   \<and> onSubmit (form_validate (\<lambda>s. NaN) inverted_bounds_form) None (Fin 7) ''web'' inverted_bounds_form
       = [CreateScaledRules (Fin 7) ''web'' inverted_bounds_form, DrawerClose]"
proof -
  let ?p = "\<lambda>s::string. NaN"
  have ty: "ttype cpu_trigger = JStr ''cpu'' \<or> ttype cpu_trigger = JStr ''memory''"
    and tv: "trigger_value cpu_trigger = JStr ''50''"
    by (simp_all add: cpu_trigger_def trigger_value_def)
  have ok: "value_validator ?p (JStr ''50'')"
    by (simp add: value_validator_def to_number_examples)
  have valid: "triggers_valid ?p [cpu_trigger]"
    using ok
    by (simp add: triggers_valid_def enumerate_eq_zip utilization_trigger_feedback [OF ty] tv
        value_rules_def required_rule_def is_empty_def field_feedback_def)
  have r: "form_validate ?p inverted_bounds_form = Resolved"
    using C10_no_cross_field_validation [OF valid, of None "Fin 7" "''web''"]
    by (simp add: inverted_bounds_form_def)
  have f: "truthy (ttype cpu_trigger)"
    by (simp add: cpu_trigger_def)
  have "onSubmit Resolved None (Fin 7) ''web'' inverted_bounds_form
       = [CreateScaledRules (Fin 7) ''web'' inverted_bounds_form, DrawerClose]"
    unfolding inverted_bounds_form_def
    by (simp add: onSubmit_def Let_def drawer_isEditing_def f)
  with valid r show ?thesis by simp
qed

end
